theory Spec2Isabelle
  imports Main "HOL-Library.AList"
begin

section \<open>Group chat supervisor scheduling: data model\<close>

text \<open>
  The theory embeds the zustand slice \<open>generateAIGroupChat\<close> (the group chat actions of the
  chat store). Store fields keep their names. JavaScript objects used as dictionaries and
  enumerated with \<open>Object.keys\<close> are association lists (\<open>obj[k]\<close> is \<open>map_of\<close>,
  \<open>obj[k] = v\<close> is \<open>AList.update\<close>, \<open>delete obj[k]\<close> is \<open>AList.delete\<close>);
  \<open>messagesMap\<close>, which is only read by key, is a map. A value that may be
  \<open>undefined\<close> is an \<open>option\<close>.
\<close>

datatype role = User | Assistant | System | Tool

record chat_message =
  msg_id :: string
  msg_role :: role
  msg_content :: string
  msg_agentId :: "string option"
  msg_groupId :: "string option"
  msg_targetId :: "string option"
  msg_tools :: "string list option"

record agent =
  agent_id :: "string option"
  agent_title :: "string option"
  agent_provider :: "string option"
  agent_model :: "string option"
  agent_systemRole :: "string option"

record group_config =
  cfg_orchestratorModel :: "string option"
  cfg_orchestratorProvider :: "string option"
  cfg_systemPrompt :: "string option"
  cfg_responseSpeed :: "string option"

record decision =
  decision_id :: string
  decision_target :: "string option"

record file_item =
  file_id :: string

record send_params =
  sp_groupId :: string
  sp_message :: string
  sp_files :: "file_item list option"
  sp_onlyAddUserMessage :: "bool option"
  sp_targetMemberId :: "string option"

record create_params =
  cp_content :: string
  cp_files :: "string list option"
  cp_role :: role
  cp_groupId :: string
  cp_sessionId :: string
  cp_topicId :: "string option"
  cp_targetId :: "string option"
  cp_fromModel :: "string option"
  cp_fromProvider :: "string option"
  cp_agentId :: "string option"

record member_info =
  member_id :: string
  member_title :: string

record prompt_params =
  pp_groupMembers :: "member_info list"
  pp_baseSystemRole :: string
  pp_agentId :: string
  pp_messages :: "chat_message list"

record fetch_params =
  fp_messages :: "chat_message list"
  fp_messageId :: string
  fp_model :: string
  fp_provider :: string
  fp_traceId :: string
  fp_agentConfig :: agent

record supervisor_context =
  ctx_availableAgents :: "agent list option"
  ctx_groupId :: string
  ctx_messages :: "chat_message list"
  ctx_model :: string
  ctx_provider :: string
  ctx_userName :: string
  ctx_systemPrompt :: "string option"
  ctx_abortController :: nat

text \<open>
  A thrown JavaScript value: an \<open>Error\<close> object with its \<open>name\<close> and \<open>message\<close>, or a value
  for which \<open>instanceof Error\<close> is false.
\<close>

datatype thrown = Error string string | NonError

datatype chat_error_type = CreateMessageError

record dispatch_payload =
  dp_id :: string
  dp_content :: string
  dp_error_type :: chat_error_type
  dp_error_message :: string

type_synonym messages_map = "string \<Rightarrow> chat_message list option"

subsection \<open>What the store does that an observer can see\<close>

text \<open>
  Every \<open>set\<close> of the slice carries a devtools action name; these names, the console
  output and the calls to the platform and to the collaborators are appended to a trace, in
  the order the code performs them.
\<close>

datatype action =
    CreatingGroupMessageStart
  | CreatingGroupMessageOnlyUser
  | CreatingGroupMessageEnd
  | SetSupervisorAbortController string
  | CleanupSupervisorAbortController string
  | ToggleSupervisorLoadingStart
  | ToggleSupervisorLoadingEnd
  | CleanupSupervisorTimer string
  | SetSupervisorTimer string
  | CancelSupervisorTimer string
  | CancelSupervisorAbortController string
  | CancelAllSupervisorDecisions

datatype console_msg =
    FailedToSendGroupMessage thrown
  | SkippingSupervisorDecision
  | SupervisorDecisions "decision list"
  | SupervisorDecisionAborted string
  | SupervisorDecisionFailed thrown
  | FailedToExecuteAgentResponses thrown
  | AgentNotFound string
  | DebugAgentData agent
  | NoProviderOrModel string
  | FailedToProcessMessage string thrown
  | DebouncedTriggeredFor string
  | UsingDebounceThreshold nat "string option"
  | DebouncedDecisionFired string
  | FailedToExecuteDecision string thrown
  | AttemptingToCancel string bool bool "string list" "string list"
  | CancelledPendingTimer string
  | AbortedOngoingRequest string
  | StoppedLoadingState string
  | CancellingAll

datatype event =
    ConsoleLog console_msg
  | ConsoleError console_msg
  | StoreAction action
  | SetTimeout nat string nat
  | ClearTimeout nat
  | NewAbortController nat
  | Abort nat string
  | UpdateActiveSessionType string
  | CreateMessage create_params
  | MakeDecision supervisor_context
  | FetchAIChatMessage fetch_params
  | ToggleMessageInToolsCalling bool string
  | RefreshMessages
  | TriggerToolCalls string
  | DispatchMessage dispatch_payload
  | ToggleChatLoading bool

subsection \<open>Suspended asynchronous calls\<close>

text \<open>
  An \<open>async\<close> function runs until its next \<open>await\<close> and is resumed when the awaited
  promise settles; other code can run in between. A suspended call of
  \<open>internal_processAgentMessage\<close> is its arguments, the locals it still needs and the call
  it waits for, with the arguments of that call. The promise of a task is suspended or has
  settled.
\<close>

datatype task_result = Resolved | Rejected thrown

datatype task_pc =
    AwaitCreateMessage create_params
  | AwaitFetchAIChatMessage fetch_params
  | AwaitRefreshBeforeToolCalls string
  | AwaitTriggerToolCalls string
  | AwaitRefreshMessages

record agent_task =
  task_groupId :: string
  task_agentId :: string
  task_targetId :: "string option"
  task_agentData :: agent
  task_messages :: "chat_message list"
  task_pc :: task_pc

datatype task_status = Suspended agent_task | Finished task_result

text \<open>
  A call of \<open>internal_executeAgentResponses\<close> suspended at
  \<open>await Promise.all(responsePromises)\<close>: its arguments, the promises it waits for, and the
  controller of the decision run that awaits it.
\<close>

record batch =
  batch_groupId :: string
  batch_decisions :: "decision list"
  batch_promises :: "nat list"
  batch_owner :: nat

subsection \<open>The store and the platform state\<close>

text \<open>
  The first six fields are fields of the chat store. The others are the state of the
  JavaScript platform that the slice drives: the pending timeouts (handle, the group id
  captured by the callback, delay), the last handle handed out by \<open>setTimeout\<close> (handles
  are positive integers), the last \<open>AbortController\<close> created, the controllers whose
  \<open>abort\<close> has been called, the decision runs that have passed the guard and have not
  yet completed (controller, group id), the promises of the agent tasks started so far, the
  executor calls suspended at \<open>Promise.all\<close>, the \<open>sendGroupMessage\<close> calls suspended at
  their \<open>await\<close> (each kind numbered from one, in the order the calls start), and the
  trace.
\<close>

record chat_state =
  messagesMap :: messages_map
  activeTopicId :: "string option"
  isCreatingMessage :: bool
  supervisorDecisionLoading :: "string list"
  supervisorDebounceTimers :: "(string \<times> nat) list"
  supervisorDecisionAbortControllers :: "(string \<times> nat) list"
  timer_queue :: "(nat \<times> string \<times> nat) list"
  timer_counter :: nat
  controller_counter :: nat
  aborted :: "nat list"
  in_flight :: "(nat \<times> string) list"
  tasks :: "(nat \<times> task_status) list"
  task_counter :: nat
  batches :: "(nat \<times> batch) list"
  batch_counter :: nat
  sends :: "(nat \<times> send_params \<times> create_params) list"
  send_counter :: nat
  trace :: "event list"

text \<open>
  What the slice reads from the other stores and the functions it imports or takes from
  \<open>get()\<close> that are defined elsewhere. The asynchronous collaborators, which the slice
  awaits, may reject; they act on the message map only. The synchronous store setters
  (\<open>internal_dispatchMessage\<close>, \<open>internal_toggleChatLoading\<close>,
  \<open>internal_toggleMessageInToolsCalling\<close>, \<open>internal_updateActiveSessionType\<close>) return
  normally; the timestamps and the empty \<open>meta\<close> of the messages built for the
  completion request are left out.
\<close>

record env =
  currentGroupAgents :: "agent list option"
  sessionActiveId :: string
  currentGroupConfig :: "group_config option"
  nickName :: "string option"
  messageMapKey :: "string \<Rightarrow> string option \<Rightarrow> string"
  LOADING_FLAT :: string
  filterMessagesForAgent :: "chat_message list \<Rightarrow> string \<Rightarrow> chat_message list"
  buildGroupChatSystemPrompt :: "prompt_params \<Rightarrow> string"
  internal_createMessage :: "create_params \<Rightarrow> messages_map \<Rightarrow> (thrown + string option) \<times> messages_map"
  internal_fetchAIChatMessage :: "fetch_params \<Rightarrow> messages_map \<Rightarrow> (thrown + bool) \<times> messages_map"
  refreshMessages :: "messages_map \<Rightarrow> (thrown + unit) \<times> messages_map"
  triggerToolCalls :: "string \<Rightarrow> messages_map \<Rightarrow> (thrown + unit) \<times> messages_map"
  internal_dispatchMessage :: "dispatch_payload \<Rightarrow> messages_map \<Rightarrow> messages_map"

definition emit :: "event \<Rightarrow> chat_state \<Rightarrow> chat_state" where
  "emit e s = s\<lparr>trace := trace s @ [e]\<rparr>"

definition truthy :: "string option \<Rightarrow> bool" where
  "truthy v = (case v of None \<Rightarrow> False | Some x \<Rightarrow> x \<noteq> [])"

definition or_else :: "string option \<Rightarrow> string \<Rightarrow> string" where
  "or_else v d = (case v of None \<Rightarrow> d | Some x \<Rightarrow> if x = [] then d else x)"

section \<open>Pure helpers of the slice\<close>

definition getDebounceThreshold :: "string option \<Rightarrow> nat" where
  "getDebounceThreshold responseSpeed =
     (if responseSpeed = Some ''fast'' then 3000
      else if responseSpeed = Some ''medium'' then 5000
      else if responseSpeed = Some ''slow'' then 8000
      else 5000)"

definition isToolCallMessage :: "chat_message \<Rightarrow> bool" where
  "isToolCallMessage message =
     (msg_role message = Assistant \<and>
      (case msg_tools message of None \<Rightarrow> False | Some ts \<Rightarrow> length ts > 0))"

definition at_last :: "'a list \<Rightarrow> 'a option" where
  "at_last xs = (if xs = [] then None else Some (last xs))"

definition shouldAvoidSupervisorDecision :: "chat_message list \<Rightarrow> bool" where
  "shouldAvoidSupervisorDecision messages =
     (if length messages = 0 then True
      else case at_last messages of
             None \<Rightarrow> True
           | Some lastMessage \<Rightarrow>
               if isToolCallMessage lastMessage then True
               else if msg_role lastMessage = Tool then True
               else False)"

section \<open>The store actions\<close>

text \<open>
  Modelled from the spec: \<open>toggleBooleanList\<close> (imported from the store utilities, which
  are not part of the sources at hand). The spec describes the loading flags as a per-group
  boolean that is true while an invocation is in flight; the list holds the ids whose flag
  is true.
\<close>

definition toggleBooleanList :: "string list \<Rightarrow> string \<Rightarrow> bool \<Rightarrow> string list" where
  "toggleBooleanList ids i loading =
     (if loading then (if i \<in> set ids then ids else ids @ [i]) else removeAll i ids)"

definition internal_toggleSupervisorLoading :: "bool \<Rightarrow> string option \<Rightarrow> chat_state \<Rightarrow> chat_state" where
  "internal_toggleSupervisorLoading loading groupId s =
     emit (StoreAction (if loading then ToggleSupervisorLoadingStart else ToggleSupervisorLoadingEnd))
       (s\<lparr>supervisorDecisionLoading :=
            (case groupId of
               Some g \<Rightarrow>
                 if g \<noteq> [] then toggleBooleanList (supervisorDecisionLoading s) g loading
                 else if loading then supervisorDecisionLoading s else []
             | None \<Rightarrow> if loading then supervisorDecisionLoading s else [])\<rparr>)"

subsection \<open>Platform calls\<close>

definition setTimeout :: "string \<Rightarrow> nat \<Rightarrow> chat_state \<Rightarrow> nat \<times> chat_state" where
  "setTimeout groupId delay s =
     (let h = Suc (timer_counter s)
      in (h, emit (SetTimeout h groupId delay)
               (s\<lparr>timer_counter := h, timer_queue := timer_queue s @ [(h, groupId, delay)]\<rparr>)))"

definition clearTimeout :: "nat \<Rightarrow> chat_state \<Rightarrow> chat_state" where
  "clearTimeout h s =
     emit (ClearTimeout h) (s\<lparr>timer_queue := filter (\<lambda>p. fst p \<noteq> h) (timer_queue s)\<rparr>)"

definition newAbortController :: "chat_state \<Rightarrow> nat \<times> chat_state" where
  "newAbortController s =
     (let c = Suc (controller_counter s)
      in (c, emit (NewAbortController c) (s\<lparr>controller_counter := c\<rparr>)))"

definition abort :: "nat \<Rightarrow> string \<Rightarrow> chat_state \<Rightarrow> chat_state" where
  "abort c reason s =
     emit (Abort c reason) (s\<lparr>aborted := (if c \<in> set (aborted s) then aborted s else aborted s @ [c])\<rparr>)"

subsection \<open>Cancelling\<close>

definition internal_cancelSupervisorDecision :: "string \<Rightarrow> chat_state \<Rightarrow> chat_state" where
  "internal_cancelSupervisorDecision groupId s =
     (let existingTimer = map_of (supervisorDebounceTimers s) groupId;
          existingAbortController = map_of (supervisorDecisionAbortControllers s) groupId;
          s1 = emit (ConsoleLog (AttemptingToCancel groupId
                       (case existingTimer of None \<Rightarrow> False | Some h \<Rightarrow> h \<noteq> 0)
                       (existingAbortController \<noteq> None)
                       (map fst (supervisorDebounceTimers s))
                       (map fst (supervisorDecisionAbortControllers s)))) s;
          s2 = (case existingTimer of
                  None \<Rightarrow> s1
                | Some h \<Rightarrow>
                    if h \<noteq> 0
                    then emit (StoreAction (CancelSupervisorTimer groupId))
                           ((emit (ConsoleLog (CancelledPendingTimer groupId)) (clearTimeout h s1))
                              \<lparr>supervisorDebounceTimers :=
                                 AList.delete groupId (supervisorDebounceTimers s1)\<rparr>)
                    else s1);
          s3 = (case existingAbortController of
                  None \<Rightarrow> s2
                | Some c \<Rightarrow>
                    emit (StoreAction (CancelSupervisorAbortController groupId))
                      ((emit (ConsoleLog (AbortedOngoingRequest groupId))
                          (abort c ''User cancelled supervisor decision'' s2))
                         \<lparr>supervisorDecisionAbortControllers :=
                            AList.delete groupId (supervisorDecisionAbortControllers s2)\<rparr>));
          s4 = internal_toggleSupervisorLoading False (Some groupId) s3
      in emit (ConsoleLog (StoppedLoadingState groupId)) s4)"

definition clear_timers :: "(string \<times> nat) list \<Rightarrow> string list \<Rightarrow> chat_state \<Rightarrow> chat_state" where
  "clear_timers timers groupIds s =
     fold (\<lambda>groupId st. case map_of timers groupId of
                           None \<Rightarrow> st
                         | Some h \<Rightarrow> if h \<noteq> 0 then clearTimeout h st else st) groupIds s"

definition abort_controllers :: "(string \<times> nat) list \<Rightarrow> string list \<Rightarrow> chat_state \<Rightarrow> chat_state" where
  "abort_controllers controllers groupIds s =
     fold (\<lambda>groupId st. case map_of controllers groupId of
                           None \<Rightarrow> st
                         | Some c \<Rightarrow> abort c ''Session cleanup'' st) groupIds s"

definition internal_cancelAllSupervisorDecisions :: "chat_state \<Rightarrow> chat_state" where
  "internal_cancelAllSupervisorDecisions s =
     (let timerGroupIds = remdups (map fst (supervisorDebounceTimers s));
          abortControllerGroupIds = remdups (map fst (supervisorDecisionAbortControllers s))
      in if length timerGroupIds > 0 \<or> length abortControllerGroupIds > 0
         then
           (let s1 = emit (ConsoleLog CancellingAll) s;
                s2 = clear_timers (supervisorDebounceTimers s) timerGroupIds s1;
                s3 = abort_controllers (supervisorDecisionAbortControllers s) abortControllerGroupIds s2
            in emit (StoreAction CancelAllSupervisorDecisions)
                 (s3\<lparr>supervisorDebounceTimers := [], supervisorDecisionAbortControllers := []\<rparr>))
         else s)"

subsection \<open>Arming the debounced trigger\<close>

text \<open>
  \<open>arm_timer\<close> is the part of \<open>internal_triggerSupervisorDecisionDebounced\<close> after the
  cancellation: the delay is chosen, the timeout is scheduled and its handle is stored.
  The callback itself is \<open>timer_callback\<close> below.
\<close>

definition arm_timer :: "env \<Rightarrow> string \<Rightarrow> chat_state \<Rightarrow> chat_state" where
  "arm_timer en groupId s =
     (let speed = (case currentGroupConfig en of None \<Rightarrow> None | Some c \<Rightarrow> cfg_responseSpeed c);
          debounceThreshold = getDebounceThreshold speed;
          s1 = emit (ConsoleLog (UsingDebounceThreshold debounceThreshold speed)) s;
          (timerId, s2) = setTimeout groupId debounceThreshold s1
      in emit (StoreAction (SetSupervisorTimer groupId))
           (s2\<lparr>supervisorDebounceTimers :=
                 AList.update groupId timerId (supervisorDebounceTimers s2)\<rparr>))"

definition internal_triggerSupervisorDecisionDebounced :: "env \<Rightarrow> string \<Rightarrow> chat_state \<Rightarrow> chat_state" where
  "internal_triggerSupervisorDecisionDebounced en groupId s =
     arm_timer en groupId
       (internal_cancelSupervisorDecision groupId
          (emit (ConsoleLog (DebouncedTriggeredFor groupId)) s))"


subsection \<open>The supervisor decision run\<close>

text \<open>
  \<open>internal_triggerSupervisorDecision\<close> suspends at
  \<open>await supervisor.makeDecision(context)\<close> and, when there are decisions, at the
  \<open>await\<close> of the executor. \<open>decision_begin\<close> is the code up to the first point and
  \<open>decision_resume\<close> the code after it, given how the promise settled, with the executor,
  if it is called, run to its end with nothing else in between. Reading a
  property of an undefined group configuration throws a \<open>TypeError\<close> inside the
  \<open>try\<close> block, before the decision function is called.
\<close>

datatype begin_result = Returned | Awaiting nat | Settled

definition lookup_messages :: "messages_map \<Rightarrow> string \<Rightarrow> chat_message list" where
  "lookup_messages m k = (case m k of None \<Rightarrow> [] | Some ms \<Rightarrow> ms)"

definition decision_catch :: "string \<Rightarrow> thrown \<Rightarrow> chat_state \<Rightarrow> chat_state" where
  "decision_catch groupId error s =
     (case error of
        Error name message \<Rightarrow>
          if name = ''AbortError'' then emit (ConsoleLog (SupervisorDecisionAborted groupId)) s
          else emit (ConsoleError (SupervisorDecisionFailed error)) s
      | NonError \<Rightarrow> emit (ConsoleError (SupervisorDecisionFailed error)) s)"

definition decision_finally :: "string \<Rightarrow> chat_state \<Rightarrow> chat_state" where
  "decision_finally groupId s =
     (let s1 = internal_toggleSupervisorLoading False (Some groupId) s
      in emit (StoreAction (CleanupSupervisorAbortController groupId))
           (s1\<lparr>supervisorDecisionAbortControllers :=
                 AList.delete groupId (supervisorDecisionAbortControllers s1)\<rparr>))"

definition decision_begin :: "env \<Rightarrow> string \<Rightarrow> chat_state \<Rightarrow> begin_result \<times> chat_state" where
  "decision_begin en groupId s =
     (let messages = lookup_messages (messagesMap s) (messageMapKey en groupId (activeTopicId s));
          agents = currentGroupAgents en
      in if length messages = 0 then (Returned, s)
         else if shouldAvoidSupervisorDecision messages
         then (Returned, emit (ConsoleLog SkippingSupervisorDecision) s)
         else
           (let (abortController, s1) = newAbortController s;
                s2 = emit (StoreAction (SetSupervisorAbortController groupId))
                       (s1\<lparr>supervisorDecisionAbortControllers :=
                             AList.update groupId abortController
                               (supervisorDecisionAbortControllers s1)\<rparr>);
                s3 = internal_toggleSupervisorLoading True (Some groupId) s2;
                realUserName = or_else (nickName en) ''User''
            in case currentGroupConfig en of
                 None \<Rightarrow>
                   (Settled,
                    decision_finally groupId
                      (decision_catch groupId
                         (Error ''TypeError'' ''Cannot read properties of undefined'') s3))
               | Some groupConfig \<Rightarrow>
                   (let context = \<lparr>ctx_availableAgents = agents,
                                   ctx_groupId = groupId,
                                   ctx_messages = messages,
                                   ctx_model = or_else (cfg_orchestratorModel groupConfig) ''gemini-2.5-flash'',
                                   ctx_provider = or_else (cfg_orchestratorProvider groupConfig) ''google'',
                                   ctx_userName = realUserName,
                                   ctx_systemPrompt = cfg_systemPrompt groupConfig,
                                   ctx_abortController = abortController\<rparr>
                    in (Awaiting abortController,
                        emit (MakeDecision context)
                          (s3\<lparr>in_flight := in_flight s3 @ [(abortController, groupId)]\<rparr>)))))"

subsection \<open>One agent's response task\<close>

definition call_collab :: "(messages_map \<Rightarrow> 'a \<times> messages_map) \<Rightarrow> chat_state \<Rightarrow> 'a \<times> chat_state" where
  "call_collab f s = (let (r, m) = f (messagesMap s) in (r, s\<lparr>messagesMap := m\<rparr>))"

definition author_name :: "member_info list \<Rightarrow> string \<Rightarrow> chat_message \<Rightarrow> string" where
  "author_name agentTitleMap realUserName msg =
     (let authorInfo = find (\<lambda>member. if msg_role msg = User then member_id member = ''user''
                                        else msg_agentId msg = Some (member_id member)) agentTitleMap;
          fallback = (if msg_role msg = User then realUserName else ''Unknown'')
      in case authorInfo of
           None \<Rightarrow> fallback
         | Some member \<Rightarrow> if member_title member = [] then fallback else member_title member)"

definition with_author :: "member_info list \<Rightarrow> string \<Rightarrow> chat_message \<Rightarrow> chat_message" where
  "with_author agentTitleMap realUserName msg =
     msg\<lparr>msg_content :=
           ''<author_name_do_not_include_in_your_response>'' @ author_name agentTitleMap realUserName msg
           @ ''</author_name_do_not_include_in_your_response>'' @ msg_content msg\<rparr>"

definition turn_instruction :: "string option \<Rightarrow> string" where
  "turn_instruction targetId =
     ''Now it's your turn to respond. Based on supervisor decision, your message will be sent to ''
     @ or_else targetId ''the group publicly''
     @ ''. Please respond as this agent would, considering the full conversation history provided above. Directly return the message content, no other text. You do not need add author name or anything else.''"

definition process_refresh :: "env \<Rightarrow> chat_state \<Rightarrow> (thrown + unit) \<times> chat_state" where
  "process_refresh en s = call_collab (refreshMessages en) (emit RefreshMessages s)"

definition process_tool_calls :: "env \<Rightarrow> string \<Rightarrow> string \<Rightarrow> chat_state \<Rightarrow> (thrown + unit) \<times> chat_state" where
  "process_tool_calls en groupId assistantId s =
     (let s1 = emit (ToggleMessageInToolsCalling True assistantId) s;
          (r1, s2) = call_collab (refreshMessages en) (emit RefreshMessages s1)
      in case r1 of
           Inl e \<Rightarrow> (Inl e, s2)
         | Inr u \<Rightarrow>
             (let (r2, s3) = call_collab (triggerToolCalls en assistantId)
                               (emit (TriggerToolCalls assistantId) s2)
              in case r2 of
                   Inl e \<Rightarrow> (Inl e, s3)
                 | Inr u \<Rightarrow> (Inr (), internal_triggerSupervisorDecisionDebounced en groupId s3)))"

definition find_agent :: "env \<Rightarrow> string \<Rightarrow> agent option" where
  "find_agent en agentId =
     (case currentGroupAgents en of
        None \<Rightarrow> None
      | Some agents \<Rightarrow> find (\<lambda>a. agent_id a = Some agentId) agents)"

definition agent_title_map :: "env \<Rightarrow> member_info list" where
  "agent_title_map en =
     \<lparr>member_id = ''user'', member_title = or_else (nickName en) ''User''\<rparr>
     # map (\<lambda>a. \<lparr>member_id = or_else (agent_id a) [], member_title = or_else (agent_title a) []\<rparr>)
         (case currentGroupAgents en of None \<Rightarrow> [] | Some agents \<Rightarrow> agents)"

definition agent_message :: "env \<Rightarrow> string \<Rightarrow> string \<Rightarrow> string option \<Rightarrow> agent \<Rightarrow> string option \<Rightarrow> create_params" where
  "agent_message en groupId agentId targetId agentData topicId =
     \<lparr>cp_content = LOADING_FLAT en,
      cp_files = None,
      cp_role = Assistant,
      cp_groupId = groupId,
      cp_sessionId = sessionActiveId en,
      cp_topicId = topicId,
      cp_targetId = targetId,
      cp_fromModel = agent_model agentData,
      cp_fromProvider = agent_provider agentData,
      cp_agentId = Some agentId\<rparr>"

definition api_request :: "env \<Rightarrow> string \<Rightarrow> string \<Rightarrow> string option \<Rightarrow> agent \<Rightarrow> chat_message list \<Rightarrow> string \<Rightarrow> fetch_params" where
  "api_request en groupId agentId targetId agentData messages assistantId =
     (let realUserName = or_else (nickName en) ''User'';
          groupChatSystemPrompt =
            buildGroupChatSystemPrompt en
              \<lparr>pp_groupMembers = agent_title_map en,
               pp_baseSystemRole = or_else (agent_systemRole agentData) [],
               pp_agentId = agentId,
               pp_messages = messages\<rparr>;
          systemMessage =
            \<lparr>msg_id = ''group-system'', msg_role = System, msg_content = groupChatSystemPrompt,
             msg_agentId = None, msg_groupId = None, msg_targetId = None, msg_tools = None\<rparr>;
          userMessage =
            \<lparr>msg_id = ''group-user'', msg_role = User, msg_content = turn_instruction targetId,
             msg_agentId = None, msg_groupId = None, msg_targetId = None, msg_tools = None\<rparr>;
          messagesWithAuthors = map (with_author (agent_title_map en) realUserName) messages;
          messagesForAPI = [systemMessage] @ messagesWithAuthors @ [userMessage]
      in \<lparr>fp_messages = messagesForAPI,
          fp_messageId = assistantId,
          fp_model = or_else (agent_model agentData) [],
          fp_provider = or_else (agent_provider agentData) [],
          fp_traceId = ''group-'' @ groupId @ ''-agent-'' @ agentId,
          fp_agentConfig = agentData\<rparr>)"

text \<open>
  \<open>process_respond\<close> is the task from the completion request on (the placeholder message
  has been created and its id, if any, is known); \<open>process_body\<close> is the whole \<open>try\<close>
  block. A result \<open>Inl e\<close> is the exception \<open>e\<close> raised inside the block.
\<close>

definition process_respond :: "env \<Rightarrow> string \<Rightarrow> string \<Rightarrow> string option \<Rightarrow> agent \<Rightarrow> chat_message list \<Rightarrow> string option \<Rightarrow> chat_state \<Rightarrow> (thrown + unit) \<times> chat_state" where
  "process_respond en groupId agentId targetId agentData messages assistantId s =
     (case assistantId of
        None \<Rightarrow> process_refresh en s
      | Some aid \<Rightarrow>
          if aid = [] then process_refresh en s
          else
            (let request = api_request en groupId agentId targetId agentData messages aid;
                 (r, s1) = call_collab (internal_fetchAIChatMessage en request)
                             (emit (FetchAIChatMessage request) s)
             in case r of
                  Inl e \<Rightarrow> (Inl e, s1)
                | Inr isFunctionCall \<Rightarrow>
                    if isFunctionCall then process_tool_calls en groupId aid s1
                    else process_refresh en s1))"

definition process_body :: "env \<Rightarrow> string \<Rightarrow> string \<Rightarrow> string option \<Rightarrow> chat_state \<Rightarrow> (thrown + unit) \<times> chat_state" where
  "process_body en groupId agentId targetId s =
     (let allMessages = lookup_messages (messagesMap s) (messageMapKey en groupId (activeTopicId s))
      in if length allMessages = 0 then (Inr (), s)
         else
           (let messages = filterMessagesForAgent en allMessages agentId
            in case find_agent en agentId of
                 None \<Rightarrow> (Inr (), emit (ConsoleError (AgentNotFound agentId)) s)
               | Some agentData \<Rightarrow>
                   (let s1 = emit (ConsoleLog (DebugAgentData agentData)) s
                    in if \<not> truthy (agent_provider agentData) \<or> \<not> truthy (agent_model agentData)
                       then (Inr (), emit (ConsoleError (NoProviderOrModel agentId)) s1)
                       else
                         (let agentMessage = agent_message en groupId agentId targetId agentData
                                               (activeTopicId s);
                              (r, s2) = call_collab (internal_createMessage en agentMessage)
                                          (emit (CreateMessage agentMessage) s1)
                          in case r of
                               Inl e \<Rightarrow> (Inl e, s2)
                             | Inr assistantId \<Rightarrow>
                                 process_respond en groupId agentId targetId agentData messages
                                   assistantId s2))))"

definition error_message :: "thrown \<Rightarrow> string" where
  "error_message error = (case error of Error name message \<Rightarrow> message | NonError \<Rightarrow> ''Unknown error'')"

definition process_catch :: "env \<Rightarrow> string \<Rightarrow> string \<Rightarrow> thrown \<Rightarrow> chat_state \<Rightarrow> chat_state" where
  "process_catch en groupId agentId error s =
     (let s1 = emit (ConsoleError (FailedToProcessMessage agentId error)) s;
          currentMessages = lookup_messages (messagesMap s1) groupId;
          errorMessage = find (\<lambda>m. msg_role m = Assistant \<and> msg_groupId m = Some groupId
                                    \<and> msg_content m = LOADING_FLAT en) currentMessages
      in case errorMessage of
           None \<Rightarrow> s1
         | Some m \<Rightarrow>
             (let payload = \<lparr>dp_id = msg_id m,
                             dp_content = ''Error: Failed to generate response. '' @ error_message error,
                             dp_error_type = CreateMessageError,
                             dp_error_message = error_message error\<rparr>
              in (emit (DispatchMessage payload) s1)
                   \<lparr>messagesMap := internal_dispatchMessage en payload (messagesMap s1)\<rparr>))"

definition internal_processAgentMessage :: "env \<Rightarrow> string \<Rightarrow> string \<Rightarrow> string option \<Rightarrow> chat_state \<Rightarrow> task_result \<times> chat_state" where
  "internal_processAgentMessage en groupId agentId targetId s =
     (let (r, s1) = process_body en groupId agentId targetId s;
          s2 = (case r of Inl error \<Rightarrow> process_catch en groupId agentId error s1 | Inr u \<Rightarrow> s1)
      in (Resolved, emit (ToggleChatLoading False) s2))"

subsection \<open>One agent's response task, from one suspension to the next\<close>

text \<open>
  \<open>task_start\<close> is the call of \<open>internal_processAgentMessage\<close> up to its first
  \<open>await\<close>; \<open>task_resume\<close> runs a suspended task from the settlement of the call it waits
  for to its next \<open>await\<close>, or to its end. A collaborator acts on the message map, and its
  result is known, when it settles. \<open>task_settle\<close> is the end of the task: the \<open>catch\<close>
  block if the \<open>try\<close> block has thrown, then the \<open>finally\<close> block; the promise of the task
  fulfils. \<open>task_run\<close> resumes a task until it has settled, with nothing else in between.
\<close>

definition task_settle :: "env \<Rightarrow> string \<Rightarrow> string \<Rightarrow> thrown + unit \<Rightarrow> chat_state \<Rightarrow> task_status \<times> chat_state" where
  "task_settle en groupId agentId r s =
     (let s1 = (case r of Inl error \<Rightarrow> process_catch en groupId agentId error s | Inr u \<Rightarrow> s)
      in (Finished Resolved, emit (ToggleChatLoading False) s1))"

definition task_await :: "agent_task \<Rightarrow> task_pc \<Rightarrow> event \<Rightarrow> chat_state \<Rightarrow> task_status \<times> chat_state" where
  "task_await t pc call s = (Suspended (t\<lparr>task_pc := pc\<rparr>), emit call s)"

definition task_start :: "env \<Rightarrow> string \<Rightarrow> string \<Rightarrow> string option \<Rightarrow> chat_state \<Rightarrow> task_status \<times> chat_state" where
  "task_start en groupId agentId targetId s =
     (let allMessages = lookup_messages (messagesMap s) (messageMapKey en groupId (activeTopicId s))
      in if length allMessages = 0 then task_settle en groupId agentId (Inr ()) s
         else
           (let messages = filterMessagesForAgent en allMessages agentId
            in case find_agent en agentId of
                 None \<Rightarrow>
                   task_settle en groupId agentId (Inr ())
                     (emit (ConsoleError (AgentNotFound agentId)) s)
               | Some agentData \<Rightarrow>
                   (let s1 = emit (ConsoleLog (DebugAgentData agentData)) s
                    in if \<not> truthy (agent_provider agentData) \<or> \<not> truthy (agent_model agentData)
                       then task_settle en groupId agentId (Inr ())
                              (emit (ConsoleError (NoProviderOrModel agentId)) s1)
                       else
                         (let agentMessage = agent_message en groupId agentId targetId agentData
                                               (activeTopicId s)
                          in (Suspended
                                \<lparr>task_groupId = groupId, task_agentId = agentId,
                                 task_targetId = targetId, task_agentData = agentData,
                                 task_messages = messages,
                                 task_pc = AwaitCreateMessage agentMessage\<rparr>,
                              emit (CreateMessage agentMessage) s1)))))"

definition task_resume :: "env \<Rightarrow> agent_task \<Rightarrow> chat_state \<Rightarrow> task_status \<times> chat_state" where
  "task_resume en t s =
     (let groupId = task_groupId t; agentId = task_agentId t
      in case task_pc t of
           AwaitCreateMessage agentMessage \<Rightarrow>
             (let (r, s1) = call_collab (internal_createMessage en agentMessage) s
              in case r of
                   Inl e \<Rightarrow> task_settle en groupId agentId (Inl e) s1
                 | Inr assistantId \<Rightarrow>
                     (case assistantId of
                        None \<Rightarrow> task_await t AwaitRefreshMessages RefreshMessages s1
                      | Some aid \<Rightarrow>
                          if aid = [] then task_await t AwaitRefreshMessages RefreshMessages s1
                          else
                            (let request = api_request en groupId agentId (task_targetId t)
                                             (task_agentData t) (task_messages t) aid
                             in task_await t (AwaitFetchAIChatMessage request)
                                  (FetchAIChatMessage request) s1)))
         | AwaitFetchAIChatMessage request \<Rightarrow>
             (let (r, s1) = call_collab (internal_fetchAIChatMessage en request) s
              in case r of
                   Inl e \<Rightarrow> task_settle en groupId agentId (Inl e) s1
                 | Inr isFunctionCall \<Rightarrow>
                     if isFunctionCall
                     then task_await t (AwaitRefreshBeforeToolCalls (fp_messageId request))
                            RefreshMessages
                            (emit (ToggleMessageInToolsCalling True (fp_messageId request)) s1)
                     else task_await t AwaitRefreshMessages RefreshMessages s1)
         | AwaitRefreshBeforeToolCalls assistantId \<Rightarrow>
             (let (r, s1) = call_collab (refreshMessages en) s
              in case r of
                   Inl e \<Rightarrow> task_settle en groupId agentId (Inl e) s1
                 | Inr u \<Rightarrow>
                     task_await t (AwaitTriggerToolCalls assistantId)
                       (TriggerToolCalls assistantId) s1)
         | AwaitTriggerToolCalls assistantId \<Rightarrow>
             (let (r, s1) = call_collab (triggerToolCalls en assistantId) s
              in case r of
                   Inl e \<Rightarrow> task_settle en groupId agentId (Inl e) s1
                 | Inr u \<Rightarrow>
                     task_settle en groupId agentId (Inr ())
                       (internal_triggerSupervisorDecisionDebounced en groupId s1))
         | AwaitRefreshMessages \<Rightarrow>
             (let (r, s1) = call_collab (refreshMessages en) s
              in task_settle en groupId agentId r s1))"

fun pc_rank :: "task_pc \<Rightarrow> nat" where
  "pc_rank (AwaitCreateMessage p) = 4"
| "pc_rank (AwaitFetchAIChatMessage p) = 3"
| "pc_rank (AwaitRefreshBeforeToolCalls i) = 2"
| "pc_rank (AwaitTriggerToolCalls i) = 1"
| "pc_rank AwaitRefreshMessages = 1"

function task_run :: "env \<Rightarrow> agent_task \<Rightarrow> chat_state \<Rightarrow> task_result \<times> chat_state" where
  "task_run en t s =
     (case task_resume en t s of
        (Finished r, s1) \<Rightarrow> (r, s1)
      | (Suspended t1, s1) \<Rightarrow> task_run en t1 s1)"
  by pat_completeness auto
termination
  apply (relation "measure (\<lambda>(en, t, s). pc_rank (task_pc t))")
   apply simp
  apply (auto simp: task_resume_def task_await_def task_settle_def Let_def split_def
              split: task_pc.splits sum.splits option.splits if_splits)
  done

subsection \<open>Executing the decisions\<close>

text \<open>
  \<open>decisions.map\<close> starts every task, in the order of the decisions: each runs to its
  first \<open>await\<close> before the next one starts. \<open>Promise.all\<close> fulfils when every promise has
  fulfilled and rejects with the first rejection. In \<open>internal_executeAgentResponses\<close> the
  executor runs with nothing else in between: after the tasks have been started, they are
  resumed one after the other, each to its end. How the tasks interleave with each other
  and with the rest of the store is the subject of the section on interleavings.
\<close>

fun start_all :: "env \<Rightarrow> string \<Rightarrow> decision list \<Rightarrow> chat_state \<Rightarrow> task_status list \<times> chat_state" where
  "start_all en groupId [] s = ([], s)"
| "start_all en groupId (d # ds) s =
     (let (p, s1) = task_start en groupId (decision_id d) (decision_target d) s;
          (ps, s2) = start_all en groupId ds s1
      in (p # ps, s2))"

fun finish_all :: "env \<Rightarrow> task_status list \<Rightarrow> chat_state \<Rightarrow> task_result list \<times> chat_state" where
  "finish_all en [] s = ([], s)"
| "finish_all en (p # ps) s =
     (let (r, s1) = (case p of Finished r \<Rightarrow> (r, s) | Suspended t \<Rightarrow> task_run en t s);
          (rs, s2) = finish_all en ps s1
      in (r # rs, s2))"

fun first_rejection :: "task_result list \<Rightarrow> thrown option" where
  "first_rejection [] = None"
| "first_rejection (Resolved # rs) = first_rejection rs"
| "first_rejection (Rejected e # rs) = Some e"

definition internal_executeAgentResponses :: "env \<Rightarrow> string \<Rightarrow> decision list \<Rightarrow> chat_state \<Rightarrow> chat_state" where
  "internal_executeAgentResponses en groupId decisions s =
     (let (responsePromises, s1) = start_all en groupId decisions s;
          (responses, s2) = finish_all en responsePromises s1
      in case first_rejection responses of
           None \<Rightarrow>
             if length decisions > 0 then internal_triggerSupervisorDecisionDebounced en groupId s2
             else s2
         | Some error \<Rightarrow> emit (ConsoleError (FailedToExecuteAgentResponses error)) s2)"

definition decision_resume :: "env \<Rightarrow> string \<Rightarrow> nat \<Rightarrow> thrown + decision list \<Rightarrow> chat_state \<Rightarrow> chat_state" where
  "decision_resume en groupId abortController outcome s =
     (let s1 = (case outcome of
                  Inr decisions \<Rightarrow>
                    (let s0 = emit (ConsoleLog (SupervisorDecisions decisions)) s
                     in if length decisions > 0
                        then internal_executeAgentResponses en groupId decisions s0
                        else s0)
                | Inl error \<Rightarrow> decision_catch groupId error s);
          s2 = decision_finally groupId s1
      in s2\<lparr>in_flight := filter (\<lambda>p. fst p \<noteq> abortController) (in_flight s2)\<rparr>)"

subsection \<open>The timer callback\<close>

definition timer_callback :: "env \<Rightarrow> string \<Rightarrow> chat_state \<Rightarrow> begin_result \<times> chat_state" where
  "timer_callback en groupId s =
     (let s1 = emit (ConsoleLog (DebouncedDecisionFired groupId)) s;
          s2 = emit (StoreAction (CleanupSupervisorTimer groupId))
                 (s1\<lparr>supervisorDebounceTimers := AList.delete groupId (supervisorDebounceTimers s1)\<rparr>)
      in decision_begin en groupId s2)"

subsection \<open>Sending a message to the group\<close>

text \<open>
  \<open>String.prototype.trim\<close> removes white space and line terminators at both ends; of
  these, the characters below are the ones a \<open>char\<close> can hold.
\<close>

definition js_whitespace :: "char \<Rightarrow> bool" where
  "js_whitespace c = ((of_char c :: nat) \<in> {9, 10, 11, 12, 13, 32, 160})"

definition js_trim :: "string \<Rightarrow> string" where
  "js_trim str = rev (dropWhile js_whitespace (rev (dropWhile js_whitespace str)))"

definition internal_setActiveGroup :: "chat_state \<Rightarrow> chat_state" where
  "internal_setActiveGroup s = emit (UpdateActiveSessionType ''group'') s"

definition set_isCreatingMessage :: "bool \<Rightarrow> action \<Rightarrow> chat_state \<Rightarrow> chat_state" where
  "set_isCreatingMessage b a s = emit (StoreAction a) (s\<lparr>isCreatingMessage := b\<rparr>)"

definition sendGroupMessage :: "env \<Rightarrow> send_params \<Rightarrow> chat_state \<Rightarrow> chat_state" where
  "sendGroupMessage en params s =
     (let groupId = sp_groupId params;
          message = sp_message params;
          files = sp_files params
      in if js_trim message = [] \<and> (case files of None \<Rightarrow> True | Some fs \<Rightarrow> length fs = 0)
         then s
         else
           (let s1 = internal_setActiveGroup s;
                s2 = set_isCreatingMessage True CreatingGroupMessageStart s1;
                userMessage =
                  \<lparr>cp_content = message,
                   cp_files = map_option (map file_id) files,
                   cp_role = User,
                   cp_groupId = groupId,
                   cp_sessionId = sessionActiveId en,
                   cp_topicId = activeTopicId s,
                   cp_targetId = sp_targetMemberId params,
                   cp_fromModel = None,
                   cp_fromProvider = None,
                   cp_agentId = None\<rparr>;
                (r, s3) = call_collab (internal_createMessage en userMessage)
                            (emit (CreateMessage userMessage) s2);
                s4 = (case r of
                        Inl error \<Rightarrow> emit (ConsoleError (FailedToSendGroupMessage error)) s3
                      | Inr messageId \<Rightarrow>
                          if sp_onlyAddUserMessage params = Some True
                          then set_isCreatingMessage False CreatingGroupMessageOnlyUser s3
                          else if truthy messageId
                          then internal_triggerSupervisorDecisionDebounced en groupId s3
                          else s3)
            in set_isCreatingMessage False CreatingGroupMessageEnd s4))"

section \<open>Interleavings\<close>

text \<open>
  The slice runs on one thread; between two suspension points a piece of code runs alone,
  and the pieces of different calls follow each other in any order. An event is one such
  piece: \<open>sendGroupMessage\<close> is called and runs to its \<open>await\<close>, or is resumed when its
  message has been created; the debounced trigger is called; a group or everything is
  cancelled; a pending timeout fires and the decision run goes to its \<open>await\<close>; the
  decision function settles for a suspended run, which starts the executor or goes to its
  end; the call an agent task waits for settles; the promises an executor waits for have
  settled, the executor goes to its end and so does the decision run that awaits it. An
  event that is not enabled (the handle is not pending, the call is not suspended, a promise
  is not settled) leaves the state as it is.
\<close>

datatype sched_event =
    Send send_params
  | SendStep nat
  | Trigger string
  | Cancel string
  | CancelAll
  | Fire nat
  | Settle nat "thrown + decision list"
  | TaskStep nat
  | Join nat

definition user_message :: "env \<Rightarrow> send_params \<Rightarrow> string option \<Rightarrow> create_params" where
  "user_message en params topicId =
     \<lparr>cp_content = sp_message params,
      cp_files = map_option (map file_id) (sp_files params),
      cp_role = User,
      cp_groupId = sp_groupId params,
      cp_sessionId = sessionActiveId en,
      cp_topicId = topicId,
      cp_targetId = sp_targetMemberId params,
      cp_fromModel = None,
      cp_fromProvider = None,
      cp_agentId = None\<rparr>"

definition send_begin :: "env \<Rightarrow> send_params \<Rightarrow> chat_state \<Rightarrow> chat_state" where
  "send_begin en params s =
     (let message = sp_message params;
          files = sp_files params
      in if js_trim message = [] \<and> (case files of None \<Rightarrow> True | Some fs \<Rightarrow> length fs = 0)
         then s
         else
           (let s1 = internal_setActiveGroup s;
                s2 = set_isCreatingMessage True CreatingGroupMessageStart s1;
                userMessage = user_message en params (activeTopicId s);
                s3 = emit (CreateMessage userMessage) s2;
                n = Suc (send_counter s3)
            in s3\<lparr>send_counter := n, sends := AList.update n (params, userMessage) (sends s3)\<rparr>))"

definition send_step :: "env \<Rightarrow> nat \<Rightarrow> chat_state \<Rightarrow> chat_state" where
  "send_step en n s =
     (case map_of (sends s) n of
        None \<Rightarrow> s
      | Some (params, userMessage) \<Rightarrow>
          (let (r, s3) = call_collab (internal_createMessage en userMessage)
                           (s\<lparr>sends := AList.delete n (sends s)\<rparr>);
               s4 = (case r of
                       Inl error \<Rightarrow> emit (ConsoleError (FailedToSendGroupMessage error)) s3
                     | Inr messageId \<Rightarrow>
                         if sp_onlyAddUserMessage params = Some True
                         then set_isCreatingMessage False CreatingGroupMessageOnlyUser s3
                         else if truthy messageId
                         then internal_triggerSupervisorDecisionDebounced en (sp_groupId params) s3
                         else s3)
           in set_isCreatingMessage False CreatingGroupMessageEnd s4))"

definition fire :: "env \<Rightarrow> nat \<Rightarrow> chat_state \<Rightarrow> chat_state" where
  "fire en h s =
     (case find (\<lambda>p. fst p = h) (timer_queue s) of
        None \<Rightarrow> s
      | Some (h', groupId, delay) \<Rightarrow>
          snd (timer_callback en groupId
                 (s\<lparr>timer_queue := filter (\<lambda>p. fst p \<noteq> h) (timer_queue s)\<rparr>)))"

text \<open>
  The executor, one piece at a time. \<open>spawn_all\<close> is \<open>decisions.map\<close>: every task is
  started and its promise recorded under a new number. \<open>executor_start\<close> is the executor up
  to \<open>await Promise.all(responsePromises)\<close>; \<open>task_step\<close> resumes one suspended task; and
  \<open>executor_join\<close> is the executor from the settlement of \<open>Promise.all\<close> on, followed by
  the \<open>finally\<close> block of the decision run that awaits the executor.
\<close>

definition spawn_task :: "env \<Rightarrow> string \<Rightarrow> decision \<Rightarrow> chat_state \<Rightarrow> nat \<times> chat_state" where
  "spawn_task en groupId d s =
     (let (p, s1) = task_start en groupId (decision_id d) (decision_target d) s;
          n = Suc (task_counter s1)
      in (n, s1\<lparr>task_counter := n, tasks := AList.update n p (tasks s1)\<rparr>))"

fun spawn_all :: "env \<Rightarrow> string \<Rightarrow> decision list \<Rightarrow> chat_state \<Rightarrow> nat list \<times> chat_state" where
  "spawn_all en groupId [] s = ([], s)"
| "spawn_all en groupId (d # ds) s =
     (let (n, s1) = spawn_task en groupId d s;
          (ns, s2) = spawn_all en groupId ds s1
      in (n # ns, s2))"

definition executor_start :: "env \<Rightarrow> string \<Rightarrow> nat \<Rightarrow> decision list \<Rightarrow> chat_state \<Rightarrow> chat_state" where
  "executor_start en groupId owner decisions s =
     (let (responsePromises, s1) = spawn_all en groupId decisions s;
          b = Suc (batch_counter s1)
      in s1\<lparr>batch_counter := b,
            batches := AList.update b
                         \<lparr>batch_groupId = groupId, batch_decisions = decisions,
                          batch_promises = responsePromises, batch_owner = owner\<rparr>
                         (batches s1)\<rparr>)"

definition task_step :: "env \<Rightarrow> nat \<Rightarrow> chat_state \<Rightarrow> chat_state" where
  "task_step en n s =
     (case map_of (tasks s) n of
        Some (Suspended t) \<Rightarrow>
          (let (p, s1) = task_resume en t s
           in s1\<lparr>tasks := AList.update n p (tasks s1)\<rparr>)
      | _ \<Rightarrow> s)"

fun promise_all :: "task_status option list \<Rightarrow> (thrown + unit) option" where
  "promise_all [] = Some (Inr ())"
| "promise_all (p # ps) =
     (case p of
        Some (Finished (Rejected e)) \<Rightarrow> Some (Inl e)
      | Some (Finished Resolved) \<Rightarrow> promise_all ps
      | _ \<Rightarrow> (case promise_all ps of Some (Inl e) \<Rightarrow> Some (Inl e) | _ \<Rightarrow> None))"

definition executor_join :: "env \<Rightarrow> nat \<Rightarrow> chat_state \<Rightarrow> chat_state" where
  "executor_join en b s =
     (case map_of (batches s) b of
        None \<Rightarrow> s
      | Some w \<Rightarrow>
          (case promise_all (map (map_of (tasks s)) (batch_promises w)) of
             None \<Rightarrow> s
           | Some r \<Rightarrow>
               (let groupId = batch_groupId w;
                    s1 = s\<lparr>batches := AList.delete b (batches s)\<rparr>;
                    s2 = (case r of
                            Inr u \<Rightarrow>
                              if length (batch_decisions w) > 0
                              then internal_triggerSupervisorDecisionDebounced en groupId s1
                              else s1
                          | Inl error \<Rightarrow>
                              emit (ConsoleError (FailedToExecuteAgentResponses error)) s1);
                    s3 = decision_finally groupId s2
                in s3\<lparr>in_flight := filter (\<lambda>p. fst p \<noteq> batch_owner w) (in_flight s3)\<rparr>)))"

definition executing :: "nat \<Rightarrow> chat_state \<Rightarrow> bool" where
  "executing c s = list_ex (\<lambda>p. batch_owner (snd p) = c) (batches s)"

definition settle :: "env \<Rightarrow> nat \<Rightarrow> thrown + decision list \<Rightarrow> chat_state \<Rightarrow> chat_state" where
  "settle en c outcome s =
     (case map_of (in_flight s) c of
        None \<Rightarrow> s
      | Some groupId \<Rightarrow>
          if executing c s then s
          else
            (case outcome of
               Inr decisions \<Rightarrow>
                 if length decisions > 0
                 then executor_start en groupId c decisions
                        (emit (ConsoleLog (SupervisorDecisions decisions)) s)
                 else decision_resume en groupId c outcome s
             | Inl error \<Rightarrow> decision_resume en groupId c outcome s))"

fun step :: "env \<Rightarrow> chat_state \<Rightarrow> sched_event \<Rightarrow> chat_state" where
  "step en s (Send params) = send_begin en params s"
| "step en s (SendStep n) = send_step en n s"
| "step en s (Trigger groupId) = internal_triggerSupervisorDecisionDebounced en groupId s"
| "step en s (Cancel groupId) = internal_cancelSupervisorDecision groupId s"
| "step en s CancelAll = internal_cancelAllSupervisorDecisions s"
| "step en s (Fire h) = fire en h s"
| "step en s (Settle c outcome) = settle en c outcome s"
| "step en s (TaskStep n) = task_step en n s"
| "step en s (Join b) = executor_join en b s"

definition run :: "env \<Rightarrow> sched_event list \<Rightarrow> chat_state \<Rightarrow> chat_state" where
  "run en evs s = foldl (step en) s evs"

text \<open>
  Modelled from the spec: the initial store state (\<open>initialState\<close> is not part of the
  sources at hand). The registry is created empty at application start; no loading flag is
  set, no message is being created and no call is suspended.
\<close>

definition initial_state :: "messages_map \<Rightarrow> string option \<Rightarrow> chat_state" where
  "initial_state m topic =
     \<lparr>messagesMap = m, activeTopicId = topic, isCreatingMessage = False,
      supervisorDecisionLoading = [], supervisorDebounceTimers = [],
      supervisorDecisionAbortControllers = [], timer_queue = [], timer_counter = 0,
      controller_counter = 0, aborted = [], in_flight = [],
      tasks = [], task_counter = 0, batches = [], batch_counter = 0,
      sends = [], send_counter = 0, trace = []\<rparr>"


section \<open>What is pending for a group\<close>

definition pending_timers :: "string \<Rightarrow> chat_state \<Rightarrow> (nat \<times> string \<times> nat) list" where
  "pending_timers groupId s = filter (\<lambda>p. fst (snd p) = groupId) (timer_queue s)"

definition live_runs :: "string \<Rightarrow> chat_state \<Rightarrow> (nat \<times> string) list" where
  "live_runs groupId s =
     filter (\<lambda>p. snd p = groupId \<and> fst p \<notin> set (aborted s)) (in_flight s)"

text \<open>
  The scheduler's invariant: a pending timeout is the one registered for its group, handles
  are positive, distinct and not beyond the last one handed out; a registered controller
  belongs to a run that has not completed and has not been aborted.
\<close>

definition sched_inv :: "chat_state \<Rightarrow> bool" where
  "sched_inv s \<longleftrightarrow>
     (\<forall>p \<in> set (timer_queue s).
        map_of (supervisorDebounceTimers s) (fst (snd p)) = Some (fst p)
        \<and> 0 < fst p \<and> fst p \<le> timer_counter s)
     \<and> distinct (map fst (timer_queue s))
     \<and> (\<forall>g c. map_of (supervisorDecisionAbortControllers s) g = Some c
          \<longrightarrow> (c, g) \<in> set (in_flight s) \<and> c \<notin> set (aborted s))
     \<and> distinct (map fst (in_flight s))
     \<and> (\<forall>r \<in> set (in_flight s). fst r \<le> controller_counter s)
     \<and> (\<forall>c \<in> set (aborted s). c \<le> controller_counter s)"

definition same_sched :: "chat_state \<Rightarrow> chat_state \<Rightarrow> bool" where
  "same_sched s s' \<longleftrightarrow>
     supervisorDebounceTimers s' = supervisorDebounceTimers s
     \<and> supervisorDecisionAbortControllers s' = supervisorDecisionAbortControllers s
     \<and> supervisorDecisionLoading s' = supervisorDecisionLoading s
     \<and> timer_queue s' = timer_queue s
     \<and> timer_counter s' = timer_counter s
     \<and> controller_counter s' = controller_counter s
     \<and> aborted s' = aborted s
     \<and> in_flight s' = in_flight s"

text \<open>
  Observations on the suspended calls. \<open>same_calls\<close> says that a piece of code has left
  them as they were. \<open>status_rank\<close> bounds the number of times a task can still be
  resumed; \<open>pending_or_fulfilled\<close> says that a promise exists and has not rejected;
  \<open>fulfilled_all\<close> says that each of the promises has fulfilled;
  \<open>started_task\<close> is what \<open>decisions.map\<close> leaves for one decision: the task of that
  decision's agent and target suspended at the creation of its placeholder message, or, when
  the group has no messages or the agent is not found or lacks a provider or a model, a
  fulfilled promise. \<open>created\<close> lists the messages whose creation has been requested, in
  the order of the requests, and \<open>awaited_create\<close> the message a task waits for, if it
  waits for one.
\<close>

definition created :: "chat_state \<Rightarrow> create_params list" where
  "created s = concat (map (\<lambda>e. case e of CreateMessage p \<Rightarrow> [p] | _ \<Rightarrow> []) (trace s))"

definition awaited_create :: "task_status \<Rightarrow> create_params list" where
  "awaited_create p =
     (case p of
        Suspended t \<Rightarrow> (case task_pc t of AwaitCreateMessage m \<Rightarrow> [m] | _ \<Rightarrow> [])
      | Finished r \<Rightarrow> [])"

definition same_calls :: "chat_state \<Rightarrow> chat_state \<Rightarrow> bool" where
  "same_calls s s' \<longleftrightarrow>
     tasks s' = tasks s
     \<and> task_counter s' = task_counter s
     \<and> batches s' = batches s
     \<and> batch_counter s' = batch_counter s
     \<and> sends s' = sends s
     \<and> send_counter s' = send_counter s"

definition status_rank :: "task_status option \<Rightarrow> nat" where
  "status_rank p = (case p of Some (Suspended t) \<Rightarrow> pc_rank (task_pc t) | _ \<Rightarrow> 0)"

definition pending_or_fulfilled :: "task_status option \<Rightarrow> bool" where
  "pending_or_fulfilled p =
     (case p of Some (Suspended t) \<Rightarrow> True | Some (Finished Resolved) \<Rightarrow> True | _ \<Rightarrow> False)"

definition fulfilled_all :: "nat list \<Rightarrow> chat_state \<Rightarrow> bool" where
  "fulfilled_all ns s = list_all (\<lambda>n. map_of (tasks s) n = Some (Finished Resolved)) ns"

definition started_task :: "env \<Rightarrow> string \<Rightarrow> decision \<Rightarrow> chat_state \<Rightarrow> task_status" where
  "started_task en groupId d s =
     (let allMessages = lookup_messages (messagesMap s) (messageMapKey en groupId (activeTopicId s))
      in if allMessages = [] then Finished Resolved
         else case find_agent en (decision_id d) of
                None \<Rightarrow> Finished Resolved
              | Some agentData \<Rightarrow>
                  if truthy (agent_provider agentData) \<and> truthy (agent_model agentData)
                  then Suspended
                         \<lparr>task_groupId = groupId, task_agentId = decision_id d,
                          task_targetId = decision_target d, task_agentData = agentData,
                          task_messages = filterMessagesForAgent en allMessages (decision_id d),
                          task_pc = AwaitCreateMessage
                                      (agent_message en groupId (decision_id d) (decision_target d)
                                         agentData (activeTopicId s))\<rparr>
                  else Finished Resolved)"

text \<open>
  Observations on a trace: the kind of each event, and the ids of the messages rewritten
  through \<open>internal_dispatchMessage\<close>.
\<close>

fun event_tag :: "event \<Rightarrow> string" where
  "event_tag (ConsoleLog m) = ''console.log''"
| "event_tag (ConsoleError m) = ''console.error''"
| "event_tag (StoreAction a) = ''set''"
| "event_tag (SetTimeout h g d) = ''setTimeout''"
| "event_tag (ClearTimeout h) = ''clearTimeout''"
| "event_tag (NewAbortController c) = ''new AbortController''"
| "event_tag (Abort c r) = ''abort''"
| "event_tag (UpdateActiveSessionType t) = ''internal_updateActiveSessionType''"
| "event_tag (CreateMessage p) = ''internal_createMessage''"
| "event_tag (MakeDecision c) = ''makeDecision''"
| "event_tag (FetchAIChatMessage p) = ''internal_fetchAIChatMessage''"
| "event_tag (ToggleMessageInToolsCalling b i) = ''internal_toggleMessageInToolsCalling''"
| "event_tag RefreshMessages = ''refreshMessages''"
| "event_tag (TriggerToolCalls i) = ''triggerToolCalls''"
| "event_tag (DispatchMessage p) = ''internal_dispatchMessage''"
| "event_tag (ToggleChatLoading b) = ''internal_toggleChatLoading''"

fun dispatched_ids :: "event list \<Rightarrow> string list" where
  "dispatched_ids [] = []"
| "dispatched_ids (DispatchMessage p # es) = dp_id p # dispatched_ids es"
| "dispatched_ids (e # es) = dispatched_ids es"

section \<open>Sample data\<close>

text \<open>
  A group \<open>g\<close> with two agents, used to evaluate the actions on concrete inputs. The
  message key joins the group id and the topic; creating a message stores it under that
  key and returns its id; the completion collaborator reports no function call.
\<close>

definition sample_key :: "string \<Rightarrow> string option \<Rightarrow> string" where
  "sample_key groupId topic = groupId @ ''_'' @ (case topic of None \<Rightarrow> ''null'' | Some t \<Rightarrow> t)"

definition sample_create :: "create_params \<Rightarrow> messages_map \<Rightarrow> (thrown + string option) \<times> messages_map" where
  "sample_create p m =
     (let k = sample_key (cp_groupId p) (cp_topicId p);
          new_id = ''msg-'' @ (case cp_agentId p of None \<Rightarrow> ''user'' | Some a \<Rightarrow> a);
          msg = \<lparr>msg_id = new_id, msg_role = cp_role p, msg_content = cp_content p,
                 msg_agentId = cp_agentId p, msg_groupId = Some (cp_groupId p),
                 msg_targetId = cp_targetId p, msg_tools = None\<rparr>
      in (Inr (Some new_id), m(k \<mapsto> lookup_messages m k @ [msg])))"

definition sample_agent :: "string \<Rightarrow> agent" where
  "sample_agent name =
     \<lparr>agent_id = Some name, agent_title = Some name, agent_provider = Some ''openai'',
      agent_model = Some ''gpt'', agent_systemRole = None\<rparr>"

definition sample_env :: env where
  "sample_env =
     \<lparr>currentGroupAgents = Some [sample_agent ''A'', sample_agent ''B''],
      sessionActiveId = ''session'',
      currentGroupConfig = Some \<lparr>cfg_orchestratorModel = None, cfg_orchestratorProvider = None,
                                 cfg_systemPrompt = None, cfg_responseSpeed = Some ''fast''\<rparr>,
      nickName = None,
      messageMapKey = sample_key,
      LOADING_FLAT = ''...'',
      filterMessagesForAgent = (\<lambda>ms a. ms),
      buildGroupChatSystemPrompt = pp_baseSystemRole,
      internal_createMessage = sample_create,
      internal_fetchAIChatMessage = (\<lambda>p m. (Inr False, m)),
      refreshMessages = (\<lambda>m. (Inr (), m)),
      triggerToolCalls = (\<lambda>i m. (Inr (), m)),
      internal_dispatchMessage = (\<lambda>p m. m)\<rparr>"

definition sample_message :: "role \<Rightarrow> string \<Rightarrow> chat_message" where
  "sample_message r text =
     \<lparr>msg_id = ''m0'', msg_role = r, msg_content = text, msg_agentId = None,
      msg_groupId = Some ''g'', msg_targetId = None, msg_tools = None\<rparr>"

definition sample_state :: "chat_message list \<Rightarrow> chat_state" where
  "sample_state ms = initial_state (Map.empty(''g_null'' \<mapsto> ms)) None"

definition blank_params :: send_params where
  "blank_params =
     \<lparr>sp_groupId = ''g'', sp_message = ''  '', sp_files = Some [],
      sp_onlyAddUserMessage = Some True, sp_targetMemberId = None\<rparr>"

definition only_user_params :: send_params where
  "only_user_params =
     \<lparr>sp_groupId = ''g'', sp_message = ''hello'', sp_files = None,
      sp_onlyAddUserMessage = Some True, sp_targetMemberId = None\<rparr>"

text \<open>A decision run is suspended for the group \<open>g\<close>: its timer has fired.\<close>

definition deciding_state :: chat_state where
  "deciding_state =
     run sample_env [Trigger ''g'', Fire 1] (sample_state [sample_message User ''hello''])"

text \<open>
  A schedule for the group \<open>g\<close>: the first decision run is superseded while it is
  suspended; its decision function settles only after the second run has started; a third
  trigger and timer follow.
\<close>

definition late_settle_events :: "sched_event list" where
  "late_settle_events =
     [Trigger ''g'', Fire 1, Trigger ''g'', Fire 2,
      Settle 1 (Inl (Error ''AbortError'' ''User cancelled supervisor decision'')),
      Trigger ''g'', Fire 3]"

definition late_settle_state :: chat_state where
  "late_settle_state =
     run sample_env late_settle_events (sample_state [sample_message User ''hello''])"

definition late_settle_prefix :: "nat \<Rightarrow> chat_state" where
  "late_settle_prefix n =
     run sample_env (take n late_settle_events) (sample_state [sample_message User ''hello''])"

text \<open>
  Environments in which a collaborator fails or reports a function call, and a store whose
  messages are kept under the bare group id.
\<close>

definition failing_fetch_env :: env where
  "failing_fetch_env =
     sample_env\<lparr>internal_fetchAIChatMessage := (\<lambda>p m. (Inl (Error ''Error'' ''network down''), m))\<rparr>"

definition create_under :: "(string \<Rightarrow> string option \<Rightarrow> string) \<Rightarrow> create_params \<Rightarrow> messages_map \<Rightarrow> (thrown + string option) \<times> messages_map" where
  "create_under key p m =
     (let k = key (cp_groupId p) (cp_topicId p);
          new_id = ''msg-'' @ (case cp_agentId p of None \<Rightarrow> ''user'' | Some a \<Rightarrow> a);
          msg = \<lparr>msg_id = new_id, msg_role = cp_role p, msg_content = cp_content p,
                 msg_agentId = cp_agentId p, msg_groupId = Some (cp_groupId p),
                 msg_targetId = cp_targetId p, msg_tools = None\<rparr>
      in (Inr (Some new_id), m(k \<mapsto> lookup_messages m k @ [msg])))"

definition bare_key_env :: env where
  "bare_key_env =
     failing_fetch_env\<lparr>messageMapKey := (\<lambda>g topic. g),
                       internal_createMessage := create_under (\<lambda>g topic. g)\<rparr>"

definition placeholder_of :: "string \<Rightarrow> chat_message" where
  "placeholder_of agentId =
     \<lparr>msg_id = ''msg-'' @ agentId, msg_role = Assistant, msg_content = ''...'',
      msg_agentId = Some agentId, msg_groupId = Some ''g'', msg_targetId = None,
      msg_tools = None\<rparr>"

definition bare_key_state :: chat_state where
  "bare_key_state =
     initial_state (Map.empty(''g'' \<mapsto> [sample_message User ''hello'', placeholder_of ''B''])) None"



definition two_decisions :: "decision list" where
  "two_decisions =
     [\<lparr>decision_id = ''A'', decision_target = None\<rparr>,
      \<lparr>decision_id = ''B'', decision_target = Some ''A''\<rparr>]"

text \<open>
  The executor has been started for the suspended decision run with two decisions, in an
  environment whose completion collaborator fails; and a schedule in which the two tasks
  are resumed in turn while the group is triggered and cancelled in between.
\<close>

definition fan_out_state :: chat_state where
  "fan_out_state = executor_start failing_fetch_env ''g'' 1 two_decisions deciding_state"

definition fan_out_events :: "sched_event list" where
  "fan_out_events =
     [TaskStep 1, TaskStep 2, Trigger ''g'', TaskStep 2, TaskStep 1, TaskStep 1, TaskStep 2,
      Cancel ''g'', TaskStep 1, TaskStep 2]"

section \<open>The guard of the decision run\<close>

lemma shouldAvoidSupervisorDecision_iff:
  "shouldAvoidSupervisorDecision ms \<longleftrightarrow>
     ms = [] \<or> msg_role (last ms) = Tool
     \<or> (msg_role (last ms) = Assistant \<and> (\<exists>ts. msg_tools (last ms) = Some ts \<and> ts \<noteq> []))"
  by (auto simp: shouldAvoidSupervisorDecision_def at_last_def isToolCallMessage_def
           split: option.splits)

text \<open>
  C3. When the history of the group's active topic is empty, or its last message has role
  \<open>tool\<close> or is an assistant message with a non-empty tool-call list, the decision run
  returns at once: the decision function is not called, no controller is created or
  registered, and the loading flags are as they were. The store is unchanged; at most the
  skip notice is written to the console.
\<close>

theorem guard_returns_without_decision:
  assumes "ms = lookup_messages (messagesMap s) (messageMapKey en g (activeTopicId s))"
    and "ms = [] \<or> msg_role (last ms) = Tool
         \<or> (msg_role (last ms) = Assistant \<and> (\<exists>ts. msg_tools (last ms) = Some ts \<and> ts \<noteq> []))"
  shows "fst (decision_begin en g s) = Returned
     \<and> (snd (decision_begin en g s) = s
        \<or> snd (decision_begin en g s) = emit (ConsoleLog SkippingSupervisorDecision) s)
     \<and> supervisorDecisionLoading (snd (decision_begin en g s)) = supervisorDecisionLoading s
     \<and> supervisorDecisionAbortControllers (snd (decision_begin en g s))
         = supervisorDecisionAbortControllers s
     \<and> controller_counter (snd (decision_begin en g s)) = controller_counter s
     \<and> in_flight (snd (decision_begin en g s)) = in_flight s"
  using assms shouldAvoidSupervisorDecision_iff [of ms]
  by (auto simp: decision_begin_def Let_def emit_def)

theorem guard_returns_without_decision_witness:
  "fst (decision_begin sample_env ''g'' (sample_state [sample_message Tool ''result''])) = Returned
   \<and> supervisorDecisionLoading
        (snd (decision_begin sample_env ''g'' (sample_state [sample_message Tool ''result'']))) = []
   \<and> supervisorDecisionAbortControllers
        (snd (decision_begin sample_env ''g'' (sample_state [sample_message Tool ''result'']))) = []"
proof -
  let ?ms = "[sample_message Tool ''result'']"
  let ?s = "sample_state ?ms"
  have h1: "?ms = lookup_messages (messagesMap ?s) (messageMapKey sample_env ''g'' (activeTopicId ?s))"
    by (simp add: sample_state_def sample_env_def sample_key_def initial_state_def
                  lookup_messages_def)
  have h2: "?ms = [] \<or> msg_role (last ?ms) = Tool
         \<or> (msg_role (last ?ms) = Assistant \<and> (\<exists>ts. msg_tools (last ?ms) = Some ts \<and> ts \<noteq> []))"
    by (simp add: sample_message_def)
  have l: "supervisorDecisionLoading ?s = []" "supervisorDecisionAbortControllers ?s = []"
    by (simp_all add: sample_state_def initial_state_def)
  from guard_returns_without_decision [OF h1 h2] l show ?thesis
    by simp
qed

section \<open>Sending a message\<close>

lemma js_trim_empty_iff: "js_trim str = [] \<longleftrightarrow> (\<forall>c \<in> set str. js_whitespace c)"
proof
  assume "js_trim str = []"
  then have a: "\<forall>x \<in> set (dropWhile js_whitespace str). js_whitespace x"
    by (simp add: js_trim_def)
  have "dropWhile js_whitespace str = []"
  proof (rule ccontr)
    assume n: "dropWhile js_whitespace str \<noteq> []"
    then have "\<not> js_whitespace (hd (dropWhile js_whitespace str))"
      by (rule hd_dropWhile)
    moreover have "hd (dropWhile js_whitespace str) \<in> set (dropWhile js_whitespace str)"
      using n by simp
    ultimately show False using a by blast
  qed
  then show "\<forall>c \<in> set str. js_whitespace c"
    by simp
next
  assume "\<forall>c \<in> set str. js_whitespace c"
  then have d: "dropWhile js_whitespace str = []"
    by simp
  show "js_trim str = []"
    unfolding js_trim_def d by simp
qed

text \<open>
  C9. A call of \<open>sendGroupMessage\<close> whose text is empty or consists of white space only and
  whose file list is absent or empty changes nothing: the state it returns is the state it
  was given, trace included, so no message is created, no timer is armed and
  \<open>isCreatingMessage\<close> is never written.
\<close>

theorem sendGroupMessage_blank_noop:
  assumes "\<forall>c \<in> set (sp_message params). js_whitespace c"
    and "sp_files params = None \<or> sp_files params = Some []"
  shows "sendGroupMessage en params s = s"
  using assms js_trim_empty_iff [of "sp_message params"]
  by (auto simp: sendGroupMessage_def Let_def)

theorem sendGroupMessage_blank_noop_witness:
  "sendGroupMessage sample_env blank_params (sample_state []) = sample_state []"
proof -
  have "\<forall>c \<in> set (sp_message blank_params). js_whitespace c"
    by (simp add: blank_params_def js_whitespace_def)
  moreover have "sp_files blank_params = None \<or> sp_files blank_params = Some []"
    by (simp add: blank_params_def)
  ultimately show ?thesis
    by (rule sendGroupMessage_blank_noop)
qed


section \<open>How the primitive operations change the state\<close>

lemma emit_simps [simp]:
  "trace (emit e s) = trace s @ [e]"
  "messagesMap (emit e s) = messagesMap s"
  "activeTopicId (emit e s) = activeTopicId s"
  "isCreatingMessage (emit e s) = isCreatingMessage s"
  "supervisorDecisionLoading (emit e s) = supervisorDecisionLoading s"
  "supervisorDebounceTimers (emit e s) = supervisorDebounceTimers s"
  "supervisorDecisionAbortControllers (emit e s) = supervisorDecisionAbortControllers s"
  "timer_queue (emit e s) = timer_queue s"
  "timer_counter (emit e s) = timer_counter s"
  "controller_counter (emit e s) = controller_counter s"
  "aborted (emit e s) = aborted s"
  "in_flight (emit e s) = in_flight s"
  by (simp_all add: emit_def)

lemma toggle_simps [simp]:
  "trace (internal_toggleSupervisorLoading b g s)
     = trace s @ [StoreAction (if b then ToggleSupervisorLoadingStart else ToggleSupervisorLoadingEnd)]"
  "messagesMap (internal_toggleSupervisorLoading b g s) = messagesMap s"
  "activeTopicId (internal_toggleSupervisorLoading b g s) = activeTopicId s"
  "isCreatingMessage (internal_toggleSupervisorLoading b g s) = isCreatingMessage s"
  "supervisorDebounceTimers (internal_toggleSupervisorLoading b g s) = supervisorDebounceTimers s"
  "supervisorDecisionAbortControllers (internal_toggleSupervisorLoading b g s)
     = supervisorDecisionAbortControllers s"
  "timer_queue (internal_toggleSupervisorLoading b g s) = timer_queue s"
  "timer_counter (internal_toggleSupervisorLoading b g s) = timer_counter s"
  "controller_counter (internal_toggleSupervisorLoading b g s) = controller_counter s"
  "aborted (internal_toggleSupervisorLoading b g s) = aborted s"
  "in_flight (internal_toggleSupervisorLoading b g s) = in_flight s"
  by (simp_all add: internal_toggleSupervisorLoading_def)

lemma toggle_off_loading:
  "supervisorDecisionLoading (internal_toggleSupervisorLoading False (Some g) s)
     = (if g = [] then [] else removeAll g (supervisorDecisionLoading s))"
  by (simp add: internal_toggleSupervisorLoading_def toggleBooleanList_def)

lemma toggle_off_clears:
  "g \<notin> set (supervisorDecisionLoading (internal_toggleSupervisorLoading False (Some g) s))"
  by (simp add: toggle_off_loading)

lemma toggle_on_loading:
  "supervisorDecisionLoading (internal_toggleSupervisorLoading True (Some g) s)
     = (if g = [] \<or> g \<in> set (supervisorDecisionLoading s) then supervisorDecisionLoading s
        else supervisorDecisionLoading s @ [g])"
  by (simp add: internal_toggleSupervisorLoading_def toggleBooleanList_def)

lemma clearTimeout_simps [simp]:
  "trace (clearTimeout h s) = trace s @ [ClearTimeout h]"
  "messagesMap (clearTimeout h s) = messagesMap s"
  "activeTopicId (clearTimeout h s) = activeTopicId s"
  "isCreatingMessage (clearTimeout h s) = isCreatingMessage s"
  "supervisorDecisionLoading (clearTimeout h s) = supervisorDecisionLoading s"
  "supervisorDebounceTimers (clearTimeout h s) = supervisorDebounceTimers s"
  "supervisorDecisionAbortControllers (clearTimeout h s) = supervisorDecisionAbortControllers s"
  "timer_queue (clearTimeout h s) = filter (\<lambda>p. fst p \<noteq> h) (timer_queue s)"
  "timer_counter (clearTimeout h s) = timer_counter s"
  "controller_counter (clearTimeout h s) = controller_counter s"
  "aborted (clearTimeout h s) = aborted s"
  "in_flight (clearTimeout h s) = in_flight s"
  by (simp_all add: clearTimeout_def)

lemma abort_simps [simp]:
  "trace (abort c r s) = trace s @ [Abort c r]"
  "messagesMap (abort c r s) = messagesMap s"
  "activeTopicId (abort c r s) = activeTopicId s"
  "isCreatingMessage (abort c r s) = isCreatingMessage s"
  "supervisorDecisionLoading (abort c r s) = supervisorDecisionLoading s"
  "supervisorDebounceTimers (abort c r s) = supervisorDebounceTimers s"
  "supervisorDecisionAbortControllers (abort c r s) = supervisorDecisionAbortControllers s"
  "timer_queue (abort c r s) = timer_queue s"
  "timer_counter (abort c r s) = timer_counter s"
  "controller_counter (abort c r s) = controller_counter s"
  "set (aborted (abort c r s)) = insert c (set (aborted s))"
  "in_flight (abort c r s) = in_flight s"
  by (auto simp: abort_def)

lemma delete_absent: "map_of al k = None \<Longrightarrow> AList.delete k al = al"
  by (simp add: delete_id map_of_eq_None_iff)

lemma cancel_simps:
  "supervisorDebounceTimers (internal_cancelSupervisorDecision g s)
     = (case map_of (supervisorDebounceTimers s) g of
          None \<Rightarrow> supervisorDebounceTimers s
        | Some h \<Rightarrow> if h \<noteq> 0 then AList.delete g (supervisorDebounceTimers s)
                    else supervisorDebounceTimers s)"
  "timer_queue (internal_cancelSupervisorDecision g s)
     = (case map_of (supervisorDebounceTimers s) g of
          None \<Rightarrow> timer_queue s
        | Some h \<Rightarrow> if h \<noteq> 0 then filter (\<lambda>p. fst p \<noteq> h) (timer_queue s) else timer_queue s)"
  "supervisorDecisionAbortControllers (internal_cancelSupervisorDecision g s)
     = AList.delete g (supervisorDecisionAbortControllers s)"
  "set (aborted (internal_cancelSupervisorDecision g s))
     = (case map_of (supervisorDecisionAbortControllers s) g of
          None \<Rightarrow> set (aborted s)
        | Some c \<Rightarrow> insert c (set (aborted s)))"
  "supervisorDecisionLoading (internal_cancelSupervisorDecision g s)
     = (if g = [] then [] else removeAll g (supervisorDecisionLoading s))"
  "timer_counter (internal_cancelSupervisorDecision g s) = timer_counter s"
  "controller_counter (internal_cancelSupervisorDecision g s) = controller_counter s"
  "in_flight (internal_cancelSupervisorDecision g s) = in_flight s"
  "messagesMap (internal_cancelSupervisorDecision g s) = messagesMap s"
  "activeTopicId (internal_cancelSupervisorDecision g s) = activeTopicId s"
  "isCreatingMessage (internal_cancelSupervisorDecision g s) = isCreatingMessage s"
  by (auto simp: internal_cancelSupervisorDecision_def Let_def toggle_off_loading
                 delete_absent
           split: option.splits)

lemma arm_timer_simps:
  "supervisorDebounceTimers (arm_timer en g s)
     = AList.update g (Suc (timer_counter s)) (supervisorDebounceTimers s)"
  "timer_queue (arm_timer en g s)
     = timer_queue s @ [(Suc (timer_counter s), g,
          getDebounceThreshold (case currentGroupConfig en of None \<Rightarrow> None
                                | Some c \<Rightarrow> cfg_responseSpeed c))]"
  "timer_counter (arm_timer en g s) = Suc (timer_counter s)"
  "supervisorDecisionAbortControllers (arm_timer en g s) = supervisorDecisionAbortControllers s"
  "aborted (arm_timer en g s) = aborted s"
  "supervisorDecisionLoading (arm_timer en g s) = supervisorDecisionLoading s"
  "controller_counter (arm_timer en g s) = controller_counter s"
  "in_flight (arm_timer en g s) = in_flight s"
  "messagesMap (arm_timer en g s) = messagesMap s"
  "activeTopicId (arm_timer en g s) = activeTopicId s"
  "isCreatingMessage (arm_timer en g s) = isCreatingMessage s"
  by (simp_all add: arm_timer_def setTimeout_def Let_def)

lemma decision_finally_simps:
  "supervisorDecisionAbortControllers (decision_finally g s)
     = AList.delete g (supervisorDecisionAbortControllers s)"
  "supervisorDecisionLoading (decision_finally g s)
     = (if g = [] then [] else removeAll g (supervisorDecisionLoading s))"
  "supervisorDebounceTimers (decision_finally g s) = supervisorDebounceTimers s"
  "timer_queue (decision_finally g s) = timer_queue s"
  "timer_counter (decision_finally g s) = timer_counter s"
  "controller_counter (decision_finally g s) = controller_counter s"
  "aborted (decision_finally g s) = aborted s"
  "in_flight (decision_finally g s) = in_flight s"
  "messagesMap (decision_finally g s) = messagesMap s"
  "activeTopicId (decision_finally g s) = activeTopicId s"
  "isCreatingMessage (decision_finally g s) = isCreatingMessage s"
  "trace (decision_finally g s)
     = trace s @ [StoreAction ToggleSupervisorLoadingEnd,
                  StoreAction (CleanupSupervisorAbortController g)]"
  by (simp_all add: decision_finally_def Let_def toggle_off_loading)

lemma decision_catch_simps:
  "supervisorDecisionAbortControllers (decision_catch g e s) = supervisorDecisionAbortControllers s"
  "supervisorDecisionLoading (decision_catch g e s) = supervisorDecisionLoading s"
  "supervisorDebounceTimers (decision_catch g e s) = supervisorDebounceTimers s"
  "timer_queue (decision_catch g e s) = timer_queue s"
  "timer_counter (decision_catch g e s) = timer_counter s"
  "controller_counter (decision_catch g e s) = controller_counter s"
  "aborted (decision_catch g e s) = aborted s"
  "in_flight (decision_catch g e s) = in_flight s"
  "messagesMap (decision_catch g e s) = messagesMap s"
  "activeTopicId (decision_catch g e s) = activeTopicId s"
  "isCreatingMessage (decision_catch g e s) = isCreatingMessage s"
  by (simp_all add: decision_catch_def split: thrown.splits)

lemma call_collab_simps [simp]:
  "trace (snd (call_collab f s)) = trace s"
  "activeTopicId (snd (call_collab f s)) = activeTopicId s"
  "isCreatingMessage (snd (call_collab f s)) = isCreatingMessage s"
  "supervisorDecisionLoading (snd (call_collab f s)) = supervisorDecisionLoading s"
  "supervisorDebounceTimers (snd (call_collab f s)) = supervisorDebounceTimers s"
  "supervisorDecisionAbortControllers (snd (call_collab f s)) = supervisorDecisionAbortControllers s"
  "timer_queue (snd (call_collab f s)) = timer_queue s"
  "timer_counter (snd (call_collab f s)) = timer_counter s"
  "controller_counter (snd (call_collab f s)) = controller_counter s"
  "aborted (snd (call_collab f s)) = aborted s"
  "in_flight (snd (call_collab f s)) = in_flight s"
  "fst (call_collab f s) = fst (f (messagesMap s))"
  "messagesMap (snd (call_collab f s)) = snd (f (messagesMap s))"
  by (simp_all add: call_collab_def split: prod.splits)

section \<open>Sending only the user message\<close>

text \<open>
  C10 as stated fails: with \<open>onlyAddUserMessage\<close> set, a call whose text is blank and that
  has no files returns at the guard, and no user message is created.
\<close>

theorem onlyAddUserMessage_blank_creates_nothing:
  "sp_onlyAddUserMessage blank_params = Some True
   \<and> trace (sendGroupMessage sample_env blank_params (sample_state [])) = []
   \<and> messagesMap (sendGroupMessage sample_env blank_params (sample_state []))
       = messagesMap (sample_state [])"
proof -
  have "\<forall>c \<in> set (sp_message blank_params). js_whitespace c"
    by (simp add: blank_params_def js_whitespace_def)
  then have "js_trim (sp_message blank_params) = []"
    by (simp add: js_trim_empty_iff)
  then have "sendGroupMessage sample_env blank_params (sample_state []) = sample_state []"
    by (simp add: sendGroupMessage_def Let_def blank_params_def)
  then show ?thesis
    by (simp add: blank_params_def sample_state_def initial_state_def)
qed

text \<open>
  C10, amended. A call of \<open>sendGroupMessage\<close> with \<open>onlyAddUserMessage\<close> set never arms the
  debounced scheduler: the pending timeouts, the registered timers and the handle counter
  are as before. If the call passes the guard on blank input (the text is not blank or
  there is a file), \<open>internal_createMessage\<close> is called once with the user message, and
  \<open>isCreatingMessage\<close> is false on return, whether the creation returned or threw.
\<close>

theorem sendGroupMessage_onlyAddUserMessage:
  assumes "sp_onlyAddUserMessage params = Some True"
  shows "timer_queue (sendGroupMessage en params s) = timer_queue s
     \<and> supervisorDebounceTimers (sendGroupMessage en params s) = supervisorDebounceTimers s
     \<and> timer_counter (sendGroupMessage en params s) = timer_counter s
     \<and> (\<not> ((\<forall>c \<in> set (sp_message params). js_whitespace c)
            \<and> (sp_files params = None \<or> sp_files params = Some []))
        \<longrightarrow> (\<exists>um r. cp_role um = User \<and> cp_content um = sp_message params
                  \<and> cp_groupId um = sp_groupId params
                  \<and> trace (sendGroupMessage en params s)
                      = trace s @ [UpdateActiveSessionType ''group'',
                                   StoreAction CreatingGroupMessageStart,
                                   CreateMessage um, r,
                                   StoreAction CreatingGroupMessageEnd]
                  \<and> (r = StoreAction CreatingGroupMessageOnlyUser
                      \<or> (\<exists>e. r = ConsoleError (FailedToSendGroupMessage e))))
            \<and> \<not> isCreatingMessage (sendGroupMessage en params s))"
proof -
  have blank: "js_trim (sp_message params) = [] \<and> (case sp_files params of None \<Rightarrow> True | Some fs \<Rightarrow> length fs = 0)
      \<longleftrightarrow> (\<forall>c \<in> set (sp_message params). js_whitespace c)
           \<and> (sp_files params = None \<or> sp_files params = Some [])"
    by (auto simp: js_trim_empty_iff split: option.splits)
  show ?thesis
  proof (cases "(\<forall>c \<in> set (sp_message params). js_whitespace c)
           \<and> (sp_files params = None \<or> sp_files params = Some [])")
    case True
    then have "sendGroupMessage en params s = s"
      using blank by (simp add: sendGroupMessage_def Let_def)
    with True show ?thesis by simp
  next
    case False
    then have nb: "\<not> (js_trim (sp_message params) = [] \<and> (case sp_files params of None \<Rightarrow> True | Some fs \<Rightarrow> length fs = 0))"
      using blank by simp
    show ?thesis
      using assms nb False
      by (simp add: sendGroupMessage_def Let_def internal_setActiveGroup_def
                    set_isCreatingMessage_def call_collab_def emit_def
               split: prod.splits sum.splits)
  qed
qed

theorem sendGroupMessage_onlyAddUserMessage_witness:
  "sp_onlyAddUserMessage only_user_params = Some True
   \<and> timer_queue (sendGroupMessage sample_env only_user_params (sample_state [])) = []
   \<and> \<not> isCreatingMessage (sendGroupMessage sample_env only_user_params (sample_state []))
   \<and> (\<exists>um r. cp_role um = User \<and> cp_content um = ''hello''
          \<and> trace (sendGroupMessage sample_env only_user_params (sample_state []))
              = [UpdateActiveSessionType ''group'', StoreAction CreatingGroupMessageStart,
                 CreateMessage um, r, StoreAction CreatingGroupMessageEnd])"
proof -
  have h: "sp_onlyAddUserMessage only_user_params = Some True"
    by (simp add: only_user_params_def)
  have nb: "\<not> ((\<forall>c \<in> set (sp_message only_user_params). js_whitespace c)
            \<and> (sp_files only_user_params = None \<or> sp_files only_user_params = Some []))"
    by (simp add: only_user_params_def js_whitespace_def)
  have q: "timer_queue (sample_state []) = []" "trace (sample_state []) = []"
    by (simp_all add: sample_state_def initial_state_def)
  have m: "sp_message only_user_params = ''hello''"
    by (simp add: only_user_params_def)
  from sendGroupMessage_onlyAddUserMessage [OF h, of sample_env "sample_state []"] nb
  show ?thesis
    unfolding q m using h by auto
qed

section \<open>Completion of a decision run\<close>

text \<open>
  C4. However the decision function settles (a decision list, an abort error, any other
  thrown value), and also when building the context throws, the run ends with the group's
  loading flag cleared and no controller registered for the group. When the decision
  function rejects with an \<open>AbortError\<close>, the run writes one console log line and the two
  clean-up actions and nothing else: no message is created, no agent task runs, and
  nothing goes to the error console.
\<close>

theorem decision_run_cleans_up:
  "g \<notin> set (supervisorDecisionLoading (decision_resume en g c outcome s))
   \<and> map_of (supervisorDecisionAbortControllers (decision_resume en g c outcome s)) g = None
   \<and> c \<notin> fst ` set (in_flight (decision_resume en g c outcome s))
   \<and> (fst (decision_begin en g s) = Settled
        \<longrightarrow> g \<notin> set (supervisorDecisionLoading (snd (decision_begin en g s)))
            \<and> map_of (supervisorDecisionAbortControllers (snd (decision_begin en g s))) g = None)
   \<and> trace (decision_resume en g c (Inl (Error ''AbortError'' msg)) s)
       = trace s @ [ConsoleLog (SupervisorDecisionAborted g),
                    StoreAction ToggleSupervisorLoadingEnd,
                    StoreAction (CleanupSupervisorAbortController g)]
   \<and> messagesMap (decision_resume en g c (Inl (Error ''AbortError'' msg)) s) = messagesMap s
   \<and> timer_queue (decision_resume en g c (Inl (Error ''AbortError'' msg)) s) = timer_queue s"
proof -
  have a: "g \<notin> set (supervisorDecisionLoading (decision_finally g t))" for t
    by (simp add: decision_finally_simps)
  have b: "map_of (supervisorDecisionAbortControllers (decision_finally g t)) g = None" for t
    by (simp add: decision_finally_simps delete_conv)
  have r1: "g \<notin> set (supervisorDecisionLoading (decision_resume en g c outcome s))"
    using a by (simp add: decision_resume_def Let_def)
  have r2: "map_of (supervisorDecisionAbortControllers (decision_resume en g c outcome s)) g = None"
    using b by (simp add: decision_resume_def Let_def)
  have r3: "c \<notin> fst ` set (in_flight (decision_resume en g c outcome s))"
    by (auto simp: decision_resume_def Let_def)
  have r4: "fst (decision_begin en g s) = Settled
        \<longrightarrow> g \<notin> set (supervisorDecisionLoading (snd (decision_begin en g s)))
            \<and> map_of (supervisorDecisionAbortControllers (snd (decision_begin en g s))) g = None"
    using a b
    by (simp add: decision_begin_def Let_def newAbortController_def split: option.splits)
  have r5: "trace (decision_resume en g c (Inl (Error ''AbortError'' msg)) s)
       = trace s @ [ConsoleLog (SupervisorDecisionAborted g),
                    StoreAction ToggleSupervisorLoadingEnd,
                    StoreAction (CleanupSupervisorAbortController g)]"
    by (simp add: decision_resume_def Let_def decision_finally_simps decision_catch_def)
  have r6: "messagesMap (decision_resume en g c (Inl (Error ''AbortError'' msg)) s) = messagesMap s"
    by (simp add: decision_resume_def Let_def decision_finally_simps decision_catch_simps)
  have r7: "timer_queue (decision_resume en g c (Inl (Error ''AbortError'' msg)) s) = timer_queue s"
    by (simp add: decision_resume_def Let_def decision_finally_simps decision_catch_simps)
  from r1 r2 r3 r4 r5 r6 r7 show ?thesis by blast
qed

theorem decision_run_cleans_up_witness:
  "fst (decision_begin (sample_env\<lparr>currentGroupConfig := None\<rparr>) ''g''
          (sample_state [sample_message User ''hello''])) = Settled
   \<and> ''g'' \<notin> set (supervisorDecisionLoading
                    (snd (decision_begin (sample_env\<lparr>currentGroupConfig := None\<rparr>) ''g''
                            (sample_state [sample_message User ''hello'']))))
   \<and> map_of (supervisorDecisionAbortControllers
                (snd (decision_begin (sample_env\<lparr>currentGroupConfig := None\<rparr>) ''g''
                        (sample_state [sample_message User ''hello''])))) ''g'' = None"
proof -
  let ?en = "sample_env\<lparr>currentGroupConfig := None\<rparr>"
  let ?s = "sample_state [sample_message User ''hello'']"
  have h: "fst (decision_begin ?en ''g'' ?s) = Settled"
    by (simp add: decision_begin_def Let_def sample_env_def sample_state_def initial_state_def
                  sample_key_def lookup_messages_def shouldAvoidSupervisorDecision_def
                  at_last_def isToolCallMessage_def sample_message_def newAbortController_def)
  from decision_run_cleans_up [of "''g''" ?en 0 "Inr []" ?s "''''"] h
  show ?thesis by blast
qed

section \<open>Cancelling everything\<close>

lemma clear_timers_queue:
  "timer_queue (clear_timers T ks s)
     = filter (\<lambda>p. \<not> (\<exists>k \<in> set ks. map_of T k = Some (fst p) \<and> fst p \<noteq> 0)) (timer_queue s)"
proof (induction ks arbitrary: s)
  case Nil
  then show ?case by (simp add: clear_timers_def)
next
  case (Cons k ks)
  have step: "clear_timers T (k # ks) s
      = clear_timers T ks (case map_of T k of None \<Rightarrow> s
                           | Some h \<Rightarrow> if h \<noteq> 0 then clearTimeout h s else s)"
    by (simp add: clear_timers_def)
  show ?case
    unfolding step Cons.IH
    by (cases "map_of T k") (auto intro!: filter_cong)
qed

lemma clear_timers_frame:
  "supervisorDecisionLoading (clear_timers T ks s) = supervisorDecisionLoading s
   \<and> supervisorDebounceTimers (clear_timers T ks s) = supervisorDebounceTimers s
   \<and> supervisorDecisionAbortControllers (clear_timers T ks s) = supervisorDecisionAbortControllers s
   \<and> aborted (clear_timers T ks s) = aborted s
   \<and> in_flight (clear_timers T ks s) = in_flight s
   \<and> timer_counter (clear_timers T ks s) = timer_counter s
   \<and> controller_counter (clear_timers T ks s) = controller_counter s
   \<and> messagesMap (clear_timers T ks s) = messagesMap s"
proof (induction ks arbitrary: s)
  case Nil
  then show ?case by (simp add: clear_timers_def)
next
  case (Cons k ks)
  have step: "clear_timers T (k # ks) s
      = clear_timers T ks (case map_of T k of None \<Rightarrow> s
                           | Some h \<Rightarrow> if h \<noteq> 0 then clearTimeout h s else s)"
    by (simp add: clear_timers_def)
  show ?case
    unfolding step using Cons.IH
    by (simp split: option.splits)
qed

lemma abort_controllers_aborted:
  "set (aborted (abort_controllers C ks s))
     = set (aborted s) \<union> {c. \<exists>k \<in> set ks. map_of C k = Some c}"
proof (induction ks arbitrary: s)
  case Nil
  then show ?case by (simp add: abort_controllers_def)
next
  case (Cons k ks)
  have step: "abort_controllers C (k # ks) s
      = abort_controllers C ks (case map_of C k of None \<Rightarrow> s
                                | Some c \<Rightarrow> abort c ''Session cleanup'' s)"
    by (simp add: abort_controllers_def)
  show ?case
    unfolding step Cons.IH
    by (cases "map_of C k") auto
qed

lemma abort_controllers_frame:
  "supervisorDecisionLoading (abort_controllers C ks s) = supervisorDecisionLoading s
   \<and> supervisorDebounceTimers (abort_controllers C ks s) = supervisorDebounceTimers s
   \<and> supervisorDecisionAbortControllers (abort_controllers C ks s) = supervisorDecisionAbortControllers s
   \<and> timer_queue (abort_controllers C ks s) = timer_queue s
   \<and> in_flight (abort_controllers C ks s) = in_flight s
   \<and> timer_counter (abort_controllers C ks s) = timer_counter s
   \<and> controller_counter (abort_controllers C ks s) = controller_counter s
   \<and> messagesMap (abort_controllers C ks s) = messagesMap s"
proof (induction ks arbitrary: s)
  case Nil
  then show ?case by (simp add: abort_controllers_def)
next
  case (Cons k ks)
  have step: "abort_controllers C (k # ks) s
      = abort_controllers C ks (case map_of C k of None \<Rightarrow> s
                                | Some c \<Rightarrow> abort c ''Session cleanup'' s)"
    by (simp add: abort_controllers_def)
  show ?case
    unfolding step using Cons.IH
    by (simp split: option.splits)
qed

lemma cancelAll_simps:
  "supervisorDebounceTimers (internal_cancelAllSupervisorDecisions s) = []"
  "supervisorDecisionAbortControllers (internal_cancelAllSupervisorDecisions s) = []"
  "timer_queue (internal_cancelAllSupervisorDecisions s)
     = filter (\<lambda>p. \<not> (\<exists>k \<in> fst ` set (supervisorDebounceTimers s).
                         map_of (supervisorDebounceTimers s) k = Some (fst p) \<and> fst p \<noteq> 0))
         (timer_queue s)"
  "set (aborted (internal_cancelAllSupervisorDecisions s))
     = set (aborted s) \<union> {c. \<exists>k \<in> fst ` set (supervisorDecisionAbortControllers s).
                                map_of (supervisorDecisionAbortControllers s) k = Some c}"
  "supervisorDecisionLoading (internal_cancelAllSupervisorDecisions s) = supervisorDecisionLoading s"
  "in_flight (internal_cancelAllSupervisorDecisions s) = in_flight s"
  "timer_counter (internal_cancelAllSupervisorDecisions s) = timer_counter s"
  "controller_counter (internal_cancelAllSupervisorDecisions s) = controller_counter s"
  "messagesMap (internal_cancelAllSupervisorDecisions s) = messagesMap s"
  by (auto simp: internal_cancelAllSupervisorDecisions_def Let_def clear_timers_queue
                 clear_timers_frame abort_controllers_aborted abort_controllers_frame)


section \<open>The scheduler's invariant\<close>

lemma same_sched_inv: "same_sched s s' \<Longrightarrow> sched_inv s' = sched_inv s"
  by (simp add: same_sched_def sched_inv_def)

lemma same_sched_refl [simp]: "same_sched s s"
  by (simp add: same_sched_def)

lemma same_sched_trans: "same_sched s t \<Longrightarrow> same_sched t u \<Longrightarrow> same_sched s u"
  by (simp add: same_sched_def)

lemma same_sched_emit [simp]: "same_sched s (emit e t) = same_sched s t"
  by (simp add: same_sched_def)

lemma sched_inv_emit [simp]: "sched_inv (emit e s) = sched_inv s"
  by (simp add: sched_inv_def)

lemma sched_inv_initial: "sched_inv (initial_state m topic)"
  by (simp add: sched_inv_def initial_state_def)

lemma all_equal_distinct_short:
  assumes "distinct ys" and "\<forall>y \<in> set ys. y = a"
  shows "length ys \<le> Suc 0"
proof (cases ys)
  case Nil
  then show ?thesis by simp
next
  case (Cons y zs)
  have "zs = []"
  proof (cases zs)
    case Nil
    then show ?thesis by simp
  next
    case (Cons z ws)
    with assms \<open>ys = y # zs\<close> show ?thesis by auto
  qed
  with Cons show ?thesis by simp
qed

lemma sched_inv_pending_registered:
  assumes "sched_inv s" and "p \<in> set (pending_timers g s)"
  shows "map_of (supervisorDebounceTimers s) g = Some (fst p) \<and> 0 < fst p"
  using assms by (auto simp: sched_inv_def pending_timers_def)

lemma sched_inv_one_pending:
  assumes "sched_inv s"
  shows "length (pending_timers g s) \<le> Suc 0"
proof (cases "map_of (supervisorDebounceTimers s) g")
  case None
  then have "pending_timers g s = []"
    using sched_inv_pending_registered [OF assms, of _ g]
    by (cases "pending_timers g s") auto
  then show ?thesis by simp
next
  case (Some h)
  have d: "distinct (map fst (pending_timers g s))"
    using assms by (simp add: sched_inv_def pending_timers_def distinct_map_filter)
  have e: "\<forall>y \<in> set (map fst (pending_timers g s)). y = h"
    using sched_inv_pending_registered [OF assms, of _ g] Some by auto
  from all_equal_distinct_short [OF d e] show ?thesis by simp
qed

lemma cancel_no_pending:
  assumes "sched_inv s"
  shows "pending_timers g (internal_cancelSupervisorDecision g s) = []"
proof -
  have "p \<notin> set (pending_timers g (internal_cancelSupervisorDecision g s))" for p
  proof
    assume a: "p \<in> set (pending_timers g (internal_cancelSupervisorDecision g s))"
    then have q: "p \<in> set (timer_queue (internal_cancelSupervisorDecision g s))" and gp: "fst (snd p) = g"
      by (simp_all add: pending_timers_def)
    from q have "p \<in> set (timer_queue s)"
      by (auto simp: cancel_simps split: option.splits if_splits)
    with gp have "p \<in> set (pending_timers g s)"
      by (simp add: pending_timers_def)
    from sched_inv_pending_registered [OF assms this]
    have r: "map_of (supervisorDebounceTimers s) g = Some (fst p)" "0 < fst p"
      by simp_all
    with q show False
      by (simp add: cancel_simps)
  qed
  then show ?thesis
    by (cases "pending_timers g (internal_cancelSupervisorDecision g s)") auto
qed

lemma sched_inv_cancel:
  assumes "sched_inv s"
  shows "sched_inv (internal_cancelSupervisorDecision g s)"
proof -
  let ?s' = "internal_cancelSupervisorDecision g s"
  have c1: "\<forall>p \<in> set (timer_queue ?s').
        map_of (supervisorDebounceTimers ?s') (fst (snd p)) = Some (fst p)
        \<and> 0 < fst p \<and> fst p \<le> timer_counter ?s'"
  proof
    fix p assume q: "p \<in> set (timer_queue ?s')"
    then have p: "p \<in> set (timer_queue s)"
      by (auto simp: cancel_simps split: option.splits if_splits)
    with assms have r: "map_of (supervisorDebounceTimers s) (fst (snd p)) = Some (fst p)"
        "0 < fst p" "fst p \<le> timer_counter s"
      by (auto simp: sched_inv_def)
    have "fst (snd p) \<noteq> g"
    proof
      assume "fst (snd p) = g"
      with r have "map_of (supervisorDebounceTimers s) g = Some (fst p)" by simp
      with q r(2) show False by (simp add: cancel_simps)
    qed
    with r show "map_of (supervisorDebounceTimers ?s') (fst (snd p)) = Some (fst p)
        \<and> 0 < fst p \<and> fst p \<le> timer_counter ?s'"
      by (auto simp: cancel_simps delete_conv split: option.splits)
  qed
  have c2: "distinct (map fst (timer_queue ?s'))"
    using assms by (auto simp: cancel_simps sched_inv_def distinct_map_filter split: option.splits)
  have c3: "\<forall>g' c. map_of (supervisorDecisionAbortControllers ?s') g' = Some c
          \<longrightarrow> (c, g') \<in> set (in_flight ?s') \<and> c \<notin> set (aborted ?s')"
  proof (intro allI impI)
    fix g' c assume a: "map_of (supervisorDecisionAbortControllers ?s') g' = Some c"
    then have ne: "g' \<noteq> g" and m: "map_of (supervisorDecisionAbortControllers s) g' = Some c"
      by (auto simp: cancel_simps delete_conv split: if_splits)
    from assms m have f: "(c, g') \<in> set (in_flight s)" and na: "c \<notin> set (aborted s)"
      by (auto simp: sched_inv_def)
    have "c \<notin> set (aborted ?s')"
    proof (cases "map_of (supervisorDecisionAbortControllers s) g")
      case None
      with na show ?thesis by (simp add: cancel_simps)
    next
      case (Some c0)
      with assms have "(c0, g) \<in> set (in_flight s)" by (auto simp: sched_inv_def)
      moreover from assms have "distinct (map fst (in_flight s))" by (simp add: sched_inv_def)
      ultimately have "c0 \<noteq> c" using f ne by (auto dest: eq_key_imp_eq_value)
      with na Some show ?thesis by (simp add: cancel_simps)
    qed
    with f show "(c, g') \<in> set (in_flight ?s') \<and> c \<notin> set (aborted ?s')"
      by (simp add: cancel_simps)
  qed
  have c4: "distinct (map fst (in_flight ?s'))"
    using assms by (simp add: cancel_simps sched_inv_def)
  have c5: "\<forall>r \<in> set (in_flight ?s'). fst r \<le> controller_counter ?s'"
    using assms by (simp add: cancel_simps sched_inv_def)
  have c6: "\<forall>c \<in> set (aborted ?s'). c \<le> controller_counter ?s'"
  proof
    fix c assume a: "c \<in> set (aborted ?s')"
    show "c \<le> controller_counter ?s'"
    proof (cases "c \<in> set (aborted s)")
      case True
      with assms show ?thesis by (simp add: cancel_simps sched_inv_def)
    next
      case False
      with a have "map_of (supervisorDecisionAbortControllers s) g = Some c"
        by (auto simp: cancel_simps split: option.splits)
      with assms have "(c, g) \<in> set (in_flight s)" by (auto simp: sched_inv_def)
      with assms show ?thesis by (auto simp: cancel_simps sched_inv_def)
    qed
  qed
  from c1 c2 c3 c4 c5 c6 show ?thesis
    unfolding sched_inv_def by blast
qed

lemma sched_inv_arm_timer:
  assumes "sched_inv s" and "pending_timers g s = []"
  shows "sched_inv (arm_timer en g s)"
proof -
  let ?s' = "arm_timer en g s"
  have ng: "fst (snd p) \<noteq> g" if "p \<in> set (timer_queue s)" for p
  proof
    assume "fst (snd p) = g"
    with that have "p \<in> set (pending_timers g s)" by (simp add: pending_timers_def)
    with assms(2) show False by simp
  qed
  have c1: "\<forall>p \<in> set (timer_queue ?s').
        map_of (supervisorDebounceTimers ?s') (fst (snd p)) = Some (fst p)
        \<and> 0 < fst p \<and> fst p \<le> timer_counter ?s'"
    using assms(1) ng by (auto simp: arm_timer_simps sched_inv_def update_conv')
  have "Suc (timer_counter s) \<notin> fst ` set (timer_queue s)"
    using assms(1) by (fastforce simp: sched_inv_def)
  then have c2: "distinct (map fst (timer_queue ?s'))"
    using assms(1) by (simp add: arm_timer_simps sched_inv_def)
  from c1 c2 assms(1) show ?thesis
    unfolding sched_inv_def by (simp add: arm_timer_simps)
qed

lemma cancel_pending_emit [simp]: "pending_timers g (emit e s) = pending_timers g s"
  by (simp add: pending_timers_def)

lemma sched_inv_trigger:
  assumes "sched_inv s"
  shows "sched_inv (internal_triggerSupervisorDecisionDebounced en g s)"
proof -
  let ?s0 = "emit (ConsoleLog (DebouncedTriggeredFor g)) s"
  have a: "sched_inv ?s0" using assms by simp
  from sched_inv_arm_timer [OF sched_inv_cancel [OF a] cancel_no_pending [OF a]]
  show ?thesis by (simp add: internal_triggerSupervisorDecisionDebounced_def)
qed

lemma trigger_pending:
  assumes "sched_inv s"
  shows "pending_timers g (internal_triggerSupervisorDecisionDebounced en g s)
     = [(Suc (timer_counter s), g,
         getDebounceThreshold (case currentGroupConfig en of None \<Rightarrow> None
                               | Some c \<Rightarrow> cfg_responseSpeed c))]"
proof -
  let ?s0 = "emit (ConsoleLog (DebouncedTriggeredFor g)) s"
  have a: "sched_inv ?s0" using assms by simp
  have "pending_timers g (internal_cancelSupervisorDecision g ?s0) = []"
    by (rule cancel_no_pending [OF a])
  then show ?thesis
    by (simp add: internal_triggerSupervisorDecisionDebounced_def pending_timers_def
                  arm_timer_simps cancel_simps)
qed

lemma sched_inv_cancelAll:
  assumes "sched_inv s"
  shows "sched_inv (internal_cancelAllSupervisorDecisions s)"
proof -
  let ?s' = "internal_cancelAllSupervisorDecisions s"
  have "p \<notin> set (timer_queue ?s')" for p
  proof
    assume q: "p \<in> set (timer_queue ?s')"
    then have p: "p \<in> set (timer_queue s)" by (simp add: cancelAll_simps)
    with assms have r: "map_of (supervisorDebounceTimers s) (fst (snd p)) = Some (fst p)" "0 < fst p"
      by (auto simp: sched_inv_def)
    then have "fst (snd p) \<in> fst ` set (supervisorDebounceTimers s)"
      by (metis map_of_eq_None_iff option.distinct(1))
    with q r show False by (auto simp: cancelAll_simps)
  qed
  then have e: "timer_queue ?s' = []"
    by (cases "timer_queue ?s'") auto
  have c6: "\<forall>c \<in> set (aborted ?s'). c \<le> controller_counter ?s'"
    using assms by (fastforce simp: cancelAll_simps sched_inv_def)
  from e c6 assms show ?thesis
    unfolding sched_inv_def by (simp add: cancelAll_simps)
qed

lemma trigger_frame:
  "in_flight (internal_triggerSupervisorDecisionDebounced en g s) = in_flight s"
  "controller_counter (internal_triggerSupervisorDecisionDebounced en g s) = controller_counter s"
  "messagesMap (internal_triggerSupervisorDecisionDebounced en g s) = messagesMap s"
  "activeTopicId (internal_triggerSupervisorDecisionDebounced en g s) = activeTopicId s"
  "isCreatingMessage (internal_triggerSupervisorDecisionDebounced en g s) = isCreatingMessage s"
  "timer_counter (internal_triggerSupervisorDecisionDebounced en g s) = Suc (timer_counter s)"
  by (simp_all add: internal_triggerSupervisorDecisionDebounced_def arm_timer_simps cancel_simps)

lemma sched_inv_finish:
  assumes "sched_inv s" and "map_of (in_flight s) c = Some g"
  shows "sched_inv ((decision_finally g s)\<lparr>in_flight := filter (\<lambda>p. fst p \<noteq> c) (in_flight (decision_finally g s))\<rparr>)"
proof -
  let ?s' = "(decision_finally g s)\<lparr>in_flight := filter (\<lambda>p. fst p \<noteq> c) (in_flight (decision_finally g s))\<rparr>"
  have cg: "(c, g) \<in> set (in_flight s)"
    using assms(2) by (rule map_of_SomeD)
  have d: "distinct (map fst (in_flight s))"
    using assms(1) by (simp add: sched_inv_def)
  have c3: "\<forall>g' c'. map_of (supervisorDecisionAbortControllers ?s') g' = Some c'
          \<longrightarrow> (c', g') \<in> set (in_flight ?s') \<and> c' \<notin> set (aborted ?s')"
  proof (intro allI impI)
    fix g' c' assume a: "map_of (supervisorDecisionAbortControllers ?s') g' = Some c'"
    then have ne: "g' \<noteq> g" and m: "map_of (supervisorDecisionAbortControllers s) g' = Some c'"
      by (auto simp: decision_finally_simps delete_conv split: if_splits)
    from assms(1) m have f: "(c', g') \<in> set (in_flight s)" and na: "c' \<notin> set (aborted s)"
      by (auto simp: sched_inv_def)
    have "c' \<noteq> c" using d cg f ne by (auto dest: eq_key_imp_eq_value)
    with f na show "(c', g') \<in> set (in_flight ?s') \<and> c' \<notin> set (aborted ?s')"
      by (simp add: decision_finally_simps)
  qed
  have c4: "distinct (map fst (in_flight ?s'))"
    using d by (simp add: decision_finally_simps distinct_map_filter)
  from c3 c4 assms(1) show ?thesis
    unfolding sched_inv_def by (simp add: decision_finally_simps)
qed

lemma sched_inv_begin:
  assumes "sched_inv s"
  shows "sched_inv (snd (decision_begin en g s))"
proof -
  let ?c = "Suc (controller_counter s)"
  have fresh: "?c \<notin> fst ` set (in_flight s)" "?c \<notin> set (aborted s)"
    using assms by (fastforce simp: sched_inv_def)+
  let ?s3 = "internal_toggleSupervisorLoading True (Some g)
              (emit (StoreAction (SetSupervisorAbortController g))
                ((emit (NewAbortController ?c) (s\<lparr>controller_counter := ?c\<rparr>))
                   \<lparr>supervisorDecisionAbortControllers :=
                      AList.update g ?c (supervisorDecisionAbortControllers s)\<rparr>))"
  have awaiting: "sched_inv (emit e (?s3\<lparr>in_flight := in_flight ?s3 @ [(?c, g)]\<rparr>))" for e
    using assms fresh
    unfolding sched_inv_def
    by (auto simp: update_conv' le_SucI)
  have settled: "sched_inv (decision_finally g (decision_catch g e ?s3))" for e
  proof -
    let ?t = "decision_finally g (decision_catch g e ?s3)"
    have "\<forall>g' c'. map_of (supervisorDecisionAbortControllers ?t) g' = Some c'
          \<longrightarrow> (c', g') \<in> set (in_flight ?t) \<and> c' \<notin> set (aborted ?t)"
      using assms
      by (auto simp: decision_finally_simps decision_catch_simps delete_conv update_conv'
                     sched_inv_def split: if_splits)
    with assms show ?thesis
      unfolding sched_inv_def
      by (auto simp: decision_finally_simps decision_catch_simps le_SucI)
  qed
  show ?thesis
    using assms awaiting settled
    by (simp add: decision_begin_def Let_def newAbortController_def split: option.splits)
qed

lemma sched_inv_fire:
  assumes "sched_inv s"
  shows "sched_inv (fire en h s)"
proof (cases "find (\<lambda>p. fst p = h) (timer_queue s)")
  case None
  with assms show ?thesis by (simp add: fire_def)
next
  case (Some p)
  obtain h' g d where p: "p = (h', g, d)" by (cases p) auto
  from Some have pin: "p \<in> set (timer_queue s)" and ph: "fst p = h"
    by (auto simp: find_Some_iff)
  let ?s1 = "s\<lparr>timer_queue := filter (\<lambda>p. fst p \<noteq> h) (timer_queue s)\<rparr>"
  let ?s2 = "emit (StoreAction (CleanupSupervisorTimer g))
               ((emit (ConsoleLog (DebouncedDecisionFired g)) ?s1)
                  \<lparr>supervisorDebounceTimers :=
                     AList.delete g (supervisorDebounceTimers (emit (ConsoleLog (DebouncedDecisionFired g)) ?s1))\<rparr>)"
  have reg: "map_of (supervisorDebounceTimers s) g = Some h"
    using assms pin ph p by (auto simp: sched_inv_def)
  have c1: "\<forall>q \<in> set (timer_queue ?s2).
        map_of (supervisorDebounceTimers ?s2) (fst (snd q)) = Some (fst q)
        \<and> 0 < fst q \<and> fst q \<le> timer_counter ?s2"
  proof
    fix q assume a: "q \<in> set (timer_queue ?s2)"
    then have qin: "q \<in> set (timer_queue s)" and qh: "fst q \<noteq> h" by simp_all
    with assms have r: "map_of (supervisorDebounceTimers s) (fst (snd q)) = Some (fst q)"
        "0 < fst q" "fst q \<le> timer_counter s"
      by (auto simp: sched_inv_def)
    have "fst (snd q) \<noteq> g" using r(1) reg qh by auto
    with r show "map_of (supervisorDebounceTimers ?s2) (fst (snd q)) = Some (fst q)
        \<and> 0 < fst q \<and> fst q \<le> timer_counter ?s2"
      by (simp add: delete_conv)
  qed
  have c2: "distinct (map fst (timer_queue ?s2))"
    using assms by (simp add: sched_inv_def distinct_map_filter)
  have "sched_inv ?s2"
    using c1 c2 assms unfolding sched_inv_def by simp
  then have "sched_inv (snd (decision_begin en g ?s2))"
    by (rule sched_inv_begin)
  then show ?thesis
    using Some p by (simp add: fire_def timer_callback_def Let_def)
qed

lemma same_sched_snd_call_collab [simp]:
  "same_sched s (snd (call_collab f t)) = same_sched s t"
  by (simp add: same_sched_def)

lemma process_refresh_sched:
  "same_sched s t \<Longrightarrow> same_sched s (snd (process_refresh en t))"
  by (simp add: process_refresh_def)

lemma process_tool_calls_sched:
  assumes "same_sched s t"
  shows "same_sched s (snd (process_tool_calls en g aid t))
     \<or> (\<exists>s0. same_sched s s0
            \<and> snd (process_tool_calls en g aid t) = internal_triggerSupervisorDecisionDebounced en g s0)"
proof -
  let ?s2 = "snd (call_collab (refreshMessages en)
                   (emit RefreshMessages (emit (ToggleMessageInToolsCalling True aid) t)))"
  let ?s3 = "snd (call_collab (triggerToolCalls en aid) (emit (TriggerToolCalls aid) ?s2))"
  have a: "same_sched s ?s2" "same_sched s ?s3"
    using assms by simp_all
  show ?thesis
  proof (cases "fst (call_collab (refreshMessages en)
                   (emit RefreshMessages (emit (ToggleMessageInToolsCalling True aid) t)))")
    case (Inl e)
    then show ?thesis
      using a(1) by (simp add: process_tool_calls_def Let_def split_def)
  next
    case (Inr u)
    show ?thesis
    proof (cases "fst (call_collab (triggerToolCalls en aid) (emit (TriggerToolCalls aid) ?s2))")
      case (Inl e)
      then show ?thesis
        using a(2) Inr by (simp add: process_tool_calls_def Let_def split_def)
    next
      case (Inr v)
      have "snd (process_tool_calls en g aid t) = internal_triggerSupervisorDecisionDebounced en g ?s3"
        using Inr \<open>fst (call_collab (refreshMessages en)
                   (emit RefreshMessages (emit (ToggleMessageInToolsCalling True aid) t))) = Inr u\<close>
        by (simp add: process_tool_calls_def Let_def split_def)
      with a(2) show ?thesis by blast
    qed
  qed
qed

lemma process_respond_sched:
  assumes "same_sched s t"
  shows "same_sched s (snd (process_respond en g a tg ad ms aid t))
     \<or> (\<exists>s0. same_sched s s0
            \<and> snd (process_respond en g a tg ad ms aid t)
                = internal_triggerSupervisorDecisionDebounced en g s0)"
proof (cases "truthy aid")
  case False
  then have "process_respond en g a tg ad ms aid t = process_refresh en t"
    by (auto simp: process_respond_def truthy_def split: option.splits)
  with process_refresh_sched [OF assms] show ?thesis by simp
next
  case True
  then obtain x where x: "aid = Some x" "x \<noteq> []"
    by (auto simp: truthy_def split: option.splits)
  let ?rq = "api_request en g a tg ad ms x"
  let ?c = "call_collab (internal_fetchAIChatMessage en ?rq) (emit (FetchAIChatMessage ?rq) t)"
  have s1: "same_sched s (snd ?c)" using assms by simp
  show ?thesis
  proof (cases "fst ?c")
    case (Inl e)
    then show ?thesis
      using s1 x by (simp add: process_respond_def Let_def split_def)
  next
    case (Inr fc)
    show ?thesis
    proof (cases fc)
      case True
      then have "process_respond en g a tg ad ms aid t = process_tool_calls en g x (snd ?c)"
        using Inr x by (simp add: process_respond_def Let_def split_def)
      with process_tool_calls_sched [OF s1] show ?thesis by simp
    next
      case False
      then have "process_respond en g a tg ad ms aid t = process_refresh en (snd ?c)"
        using Inr x by (simp add: process_respond_def Let_def split_def)
      with process_refresh_sched [OF s1] show ?thesis by simp
    qed
  qed
qed

lemma process_body_sched:
  "same_sched s (snd (process_body en g a tg s))
     \<or> (\<exists>s0. same_sched s s0
            \<and> snd (process_body en g a tg s) = internal_triggerSupervisorDecisionDebounced en g s0)"
proof -
  have rs: "same_sched s t \<Longrightarrow>
        same_sched s (snd (process_respond en g a tg ad ms aid t))
        \<or> (\<exists>s0. same_sched s s0
            \<and> snd (process_respond en g a tg ad ms aid t)
                = internal_triggerSupervisorDecisionDebounced en g s0)" for ad ms aid t
    by (rule process_respond_sched)
  show ?thesis
    unfolding process_body_def Let_def split_def
    by (auto split: option.splits sum.splits intro!: rs)
qed

lemma process_catch_sched [simp]: "same_sched s (process_catch en g a e t) = same_sched s t"
  by (simp add: process_catch_def Let_def same_sched_def split: option.splits)

lemma sched_inv_process:
  assumes "sched_inv s"
  shows "sched_inv (snd (internal_processAgentMessage en g a t s))"
proof -
  let ?s1 = "snd (process_body en g a t s)"
  have i1: "sched_inv ?s1"
    using process_body_sched [of s en g a t] assms sched_inv_trigger same_sched_inv by metis
  have "sched_inv (process_catch en g a e ?s1)" for e
    using i1 same_sched_inv [of ?s1 "process_catch en g a e ?s1"] by simp
  with i1 show ?thesis
    by (simp add: internal_processAgentMessage_def Let_def split_def split: sum.splits)
qed

lemma process_in_flight:
  "in_flight (snd (internal_processAgentMessage en g a t s)) = in_flight s"
proof -
  let ?s1 = "snd (process_body en g a t s)"
  have i1: "in_flight ?s1 = in_flight s"
    using process_body_sched [of s en g a t] by (auto simp: same_sched_def trigger_frame)
  have "in_flight (process_catch en g a e ?s1) = in_flight ?s1" for e
    using process_catch_sched [of ?s1 en g a e ?s1] by (simp add: same_sched_def)
  with i1 show ?thesis
    by (simp add: internal_processAgentMessage_def Let_def split_def split: sum.splits)
qed

section \<open>Suspended calls are left alone\<close>

lemma same_calls_refl [simp]: "same_calls s s"
  by (simp add: same_calls_def)

lemma same_calls_trans: "same_calls s t \<Longrightarrow> same_calls t u \<Longrightarrow> same_calls s u"
  by (simp add: same_calls_def)

lemma same_callsD:
  "same_calls s s' \<Longrightarrow> tasks s' = tasks s \<and> task_counter s' = task_counter s
     \<and> batches s' = batches s \<and> batch_counter s' = batch_counter s
     \<and> sends s' = sends s \<and> send_counter s' = send_counter s"
  by (simp add: same_calls_def)

lemma same_calls_emit [simp]: "same_calls s (emit e t) = same_calls s t"
  by (simp add: same_calls_def emit_def)

lemma same_calls_call_collab [simp]: "same_calls s (snd (call_collab f t)) = same_calls s t"
  by (simp add: same_calls_def call_collab_def split_def Let_def)

lemma same_calls_toggle [simp]:
  "same_calls s (internal_toggleSupervisorLoading b g t) = same_calls s t"
  by (simp add: same_calls_def internal_toggleSupervisorLoading_def emit_def)

lemma same_calls_clearTimeout [simp]: "same_calls s (clearTimeout h t) = same_calls s t"
  by (simp add: same_calls_def clearTimeout_def emit_def)

lemma same_calls_abort [simp]: "same_calls s (abort c r t) = same_calls s t"
  by (simp add: same_calls_def abort_def emit_def)

lemma same_calls_updates [simp]:
  "same_calls s (t\<lparr>supervisorDebounceTimers := a\<rparr>) = same_calls s t"
  "same_calls s (t\<lparr>supervisorDecisionAbortControllers := b\<rparr>) = same_calls s t"
  "same_calls s (t\<lparr>timer_queue := q\<rparr>) = same_calls s t"
  "same_calls s (t\<lparr>timer_counter := n\<rparr>) = same_calls s t"
  "same_calls s (t\<lparr>controller_counter := n\<rparr>) = same_calls s t"
  "same_calls s (t\<lparr>in_flight := f\<rparr>) = same_calls s t"
  "same_calls s (t\<lparr>messagesMap := m\<rparr>) = same_calls s t"
  "same_calls s (t\<lparr>isCreatingMessage := c\<rparr>) = same_calls s t"
  by (simp_all add: same_calls_def)

lemma same_calls_cancel [simp]:
  "same_calls s (internal_cancelSupervisorDecision g t) = same_calls s t"
  by (simp add: internal_cancelSupervisorDecision_def Let_def split: option.splits)

lemma same_calls_arm_timer [simp]: "same_calls s (arm_timer en g t) = same_calls s t"
  by (simp add: arm_timer_def setTimeout_def Let_def)

lemma same_calls_trigger [simp]:
  "same_calls s (internal_triggerSupervisorDecisionDebounced en g t) = same_calls s t"
  by (simp add: internal_triggerSupervisorDecisionDebounced_def)

lemma same_calls_finally [simp]: "same_calls s (decision_finally g t) = same_calls s t"
  by (simp add: decision_finally_def Let_def)

lemma same_calls_catch [simp]: "same_calls s (decision_catch g e t) = same_calls s t"
  by (simp add: decision_catch_def split: thrown.splits)

lemma same_calls_clear_timers [simp]:
  "same_calls s (clear_timers ts gs t) = same_calls s t"
  unfolding clear_timers_def
  by (induction gs arbitrary: t) (simp_all split: option.splits)

lemma same_calls_abort_controllers [simp]:
  "same_calls s (abort_controllers cs gs t) = same_calls s t"
  unfolding abort_controllers_def
  by (induction gs arbitrary: t) (simp_all split: option.splits)

lemma same_calls_cancelAll [simp]:
  "same_calls s (internal_cancelAllSupervisorDecisions t) = same_calls s t"
  by (simp add: internal_cancelAllSupervisorDecisions_def Let_def)

lemma same_calls_begin [simp]: "same_calls s (snd (decision_begin en g t)) = same_calls s t"
  by (simp add: decision_begin_def Let_def newAbortController_def split: option.splits)

lemma same_calls_fire [simp]: "same_calls s (fire en h t) = same_calls s t"
  by (simp add: fire_def timer_callback_def Let_def split: option.splits prod.splits)

lemma same_calls_process_catch [simp]:
  "same_calls s (process_catch en g a e t) = same_calls s t"
  by (simp add: process_catch_def Let_def split: option.splits)

lemma same_calls_task_settle [simp]:
  "same_calls s (snd (task_settle en g a r t)) = same_calls s t"
  by (simp add: task_settle_def Let_def split: sum.splits)

lemma same_calls_task_start [simp]:
  "same_calls s (snd (task_start en g a tg t)) = same_calls s t"
  by (simp add: task_start_def Let_def split: option.splits)

lemma same_calls_task_resume [simp]:
  "same_calls s (snd (task_resume en k t)) = same_calls s t"
  by (simp add: task_resume_def task_await_def Let_def split_def
           split: task_pc.splits sum.splits option.splits)

lemma same_calls_resume_rejected [simp]:
  "same_calls s (decision_resume en g c (Inl e) t) = same_calls s t"
  by (simp add: decision_resume_def Let_def)

lemma same_calls_resume_empty [simp]:
  "same_calls s (decision_resume en g c (Inr []) t) = same_calls s t"
  by (simp add: decision_resume_def Let_def)

section \<open>Evaluating a schedule step by step\<close>

lemma cancel_aborted:
  "aborted (internal_cancelSupervisorDecision g s)
     = (case map_of (supervisorDecisionAbortControllers s) g of
          None \<Rightarrow> aborted s
        | Some c \<Rightarrow> if c \<in> set (aborted s) then aborted s else aborted s @ [c])"
  by (simp add: internal_cancelSupervisorDecision_def Let_def abort_def split: option.splits)

lemma trigger_fields:
  "supervisorDebounceTimers (internal_triggerSupervisorDecisionDebounced en g s)
     = AList.update g (Suc (timer_counter s))
         (case map_of (supervisorDebounceTimers s) g of
            None \<Rightarrow> supervisorDebounceTimers s
          | Some h \<Rightarrow> if h \<noteq> 0 then AList.delete g (supervisorDebounceTimers s)
                      else supervisorDebounceTimers s)"
  "timer_queue (internal_triggerSupervisorDecisionDebounced en g s)
     = (case map_of (supervisorDebounceTimers s) g of
          None \<Rightarrow> timer_queue s
        | Some h \<Rightarrow> if h \<noteq> 0 then filter (\<lambda>p. fst p \<noteq> h) (timer_queue s) else timer_queue s)
       @ [(Suc (timer_counter s), g,
           getDebounceThreshold (case currentGroupConfig en of None \<Rightarrow> None
                                 | Some c \<Rightarrow> cfg_responseSpeed c))]"
  "supervisorDecisionAbortControllers (internal_triggerSupervisorDecisionDebounced en g s)
     = AList.delete g (supervisorDecisionAbortControllers s)"
  "aborted (internal_triggerSupervisorDecisionDebounced en g s)
     = (case map_of (supervisorDecisionAbortControllers s) g of
          None \<Rightarrow> aborted s
        | Some c \<Rightarrow> if c \<in> set (aborted s) then aborted s else aborted s @ [c])"
  "supervisorDecisionLoading (internal_triggerSupervisorDecisionDebounced en g s)
     = (if g = [] then [] else removeAll g (supervisorDecisionLoading s))"
  by (simp_all add: internal_triggerSupervisorDecisionDebounced_def arm_timer_simps cancel_simps
                    cancel_aborted split: option.splits)

lemma fire_fields:
  assumes "find (\<lambda>p. fst p = h) (timer_queue s) = Some (h, g, d)"
    and "lookup_messages (messagesMap s) (messageMapKey en g (activeTopicId s)) = ms"
    and "ms \<noteq> []" and "\<not> shouldAvoidSupervisorDecision ms"
    and "currentGroupConfig en = Some cfg"
  shows "timer_queue (fire en h s) = filter (\<lambda>p. fst p \<noteq> h) (timer_queue s)"
    and "supervisorDebounceTimers (fire en h s) = AList.delete g (supervisorDebounceTimers s)"
    and "supervisorDecisionAbortControllers (fire en h s)
           = AList.update g (Suc (controller_counter s)) (supervisorDecisionAbortControllers s)"
    and "controller_counter (fire en h s) = Suc (controller_counter s)"
    and "in_flight (fire en h s) = in_flight s @ [(Suc (controller_counter s), g)]"
    and "aborted (fire en h s) = aborted s"
    and "timer_counter (fire en h s) = timer_counter s"
    and "messagesMap (fire en h s) = messagesMap s"
    and "activeTopicId (fire en h s) = activeTopicId s"
    and "supervisorDecisionLoading (fire en h s)
           = (if g = [] \<or> g \<in> set (supervisorDecisionLoading s) then supervisorDecisionLoading s
              else supervisorDecisionLoading s @ [g])"
  using assms
  by (simp_all add: fire_def timer_callback_def decision_begin_def Let_def
                    newAbortController_def toggle_on_loading)

lemma settle_rejected_fields:
  assumes "map_of (in_flight s) c = Some g" and "\<not> executing c s"
  shows "timer_queue (settle en c (Inl e) s) = timer_queue s"
    and "supervisorDebounceTimers (settle en c (Inl e) s) = supervisorDebounceTimers s"
    and "supervisorDecisionAbortControllers (settle en c (Inl e) s)
           = AList.delete g (supervisorDecisionAbortControllers s)"
    and "controller_counter (settle en c (Inl e) s) = controller_counter s"
    and "in_flight (settle en c (Inl e) s) = filter (\<lambda>p. fst p \<noteq> c) (in_flight s)"
    and "aborted (settle en c (Inl e) s) = aborted s"
    and "timer_counter (settle en c (Inl e) s) = timer_counter s"
    and "messagesMap (settle en c (Inl e) s) = messagesMap s"
    and "activeTopicId (settle en c (Inl e) s) = activeTopicId s"
    and "supervisorDecisionLoading (settle en c (Inl e) s)
           = (if g = [] then [] else removeAll g (supervisorDecisionLoading s))"
  using assms
  by (simp_all add: settle_def decision_resume_def Let_def decision_finally_simps
                    decision_catch_simps)

lemma sample_guard:
  "lookup_messages (Map.empty(''g_null'' \<mapsto> [sample_message User ''hello'']))
       (messageMapKey sample_env ''g'' None) = [sample_message User ''hello'']"
  "\<not> shouldAvoidSupervisorDecision [sample_message User ''hello'']"
  "currentGroupConfig sample_env
     = Some \<lparr>cfg_orchestratorModel = None, cfg_orchestratorProvider = None,
             cfg_systemPrompt = None, cfg_responseSpeed = Some ''fast''\<rparr>"
  "getDebounceThreshold (Some ''fast'') = 3000"
  by (simp_all add: lookup_messages_def sample_env_def sample_key_def
                    shouldAvoidSupervisorDecision_def at_last_def isToolCallMessage_def
                    sample_message_def getDebounceThreshold_def)

lemma late_settle_steps:
  "late_settle_prefix (Suc 0) = internal_triggerSupervisorDecisionDebounced sample_env ''g'' (late_settle_prefix 0)"
  "late_settle_prefix 2 = fire sample_env 1 (late_settle_prefix 1)"
  "late_settle_prefix 3 = internal_triggerSupervisorDecisionDebounced sample_env ''g'' (late_settle_prefix 2)"
  "late_settle_prefix 4 = fire sample_env 2 (late_settle_prefix 3)"
  "late_settle_prefix 5
     = settle sample_env 1 (Inl (Error ''AbortError'' ''User cancelled supervisor decision''))
         (late_settle_prefix 4)"
  "late_settle_prefix 6 = internal_triggerSupervisorDecisionDebounced sample_env ''g'' (late_settle_prefix 5)"
  "late_settle_prefix 7 = fire sample_env 3 (late_settle_prefix 6)"
  by (simp_all add: late_settle_prefix_def late_settle_events_def run_def eval_nat_numeral)

lemma late_settle_no_calls:
  "tasks (late_settle_prefix 0) = []" "task_counter (late_settle_prefix 0) = 0"
  "batches (late_settle_prefix 0) = []" "batch_counter (late_settle_prefix 0) = 0"
  "same_calls (late_settle_prefix 0) (late_settle_prefix 2)"
  "same_calls (late_settle_prefix 0) (late_settle_prefix 4)"
  by (simp_all add: late_settle_steps)
     (simp_all add: late_settle_prefix_def run_def sample_state_def initial_state_def)

lemma late_settle_0:
  "timer_queue (late_settle_prefix 0) = []"
  "supervisorDebounceTimers (late_settle_prefix 0) = []"
  "supervisorDecisionAbortControllers (late_settle_prefix 0) = []"
  "controller_counter (late_settle_prefix 0) = 0"
  "in_flight (late_settle_prefix 0) = []"
  "aborted (late_settle_prefix 0) = []"
  "timer_counter (late_settle_prefix 0) = 0"
  "messagesMap (late_settle_prefix 0) = Map.empty(''g_null'' \<mapsto> [sample_message User ''hello''])"
  "activeTopicId (late_settle_prefix 0) = None"
  "supervisorDecisionLoading (late_settle_prefix 0) = []"
  by (simp_all add: late_settle_prefix_def run_def sample_state_def initial_state_def)

lemma late_settle_1:
  "timer_queue (late_settle_prefix (Suc 0)) = [(1, ''g'', 3000)]"
  "supervisorDebounceTimers (late_settle_prefix (Suc 0)) = [(''g'', 1)]"
  "supervisorDecisionAbortControllers (late_settle_prefix (Suc 0)) = []"
  "controller_counter (late_settle_prefix (Suc 0)) = 0"
  "in_flight (late_settle_prefix (Suc 0)) = []"
  "aborted (late_settle_prefix (Suc 0)) = []"
  "timer_counter (late_settle_prefix (Suc 0)) = 1"
  "messagesMap (late_settle_prefix (Suc 0)) = Map.empty(''g_null'' \<mapsto> [sample_message User ''hello''])"
  "activeTopicId (late_settle_prefix (Suc 0)) = None"
  "supervisorDecisionLoading (late_settle_prefix (Suc 0)) = []"
  by (simp_all add: late_settle_steps(1) trigger_fields trigger_frame late_settle_0 sample_guard)

lemma late_settle_2:
  "timer_queue (late_settle_prefix 2) = []"
  "supervisorDebounceTimers (late_settle_prefix 2) = []"
  "supervisorDecisionAbortControllers (late_settle_prefix 2) = [(''g'', 1)]"
  "controller_counter (late_settle_prefix 2) = 1"
  "in_flight (late_settle_prefix 2) = [(1, ''g'')]"
  "aborted (late_settle_prefix 2) = []"
  "timer_counter (late_settle_prefix 2) = 1"
  "messagesMap (late_settle_prefix 2) = Map.empty(''g_null'' \<mapsto> [sample_message User ''hello''])"
  "activeTopicId (late_settle_prefix 2) = None"
  "supervisorDecisionLoading (late_settle_prefix 2) = [''g'']"
proof -
  have f: "find (\<lambda>p. fst p = Suc 0) (timer_queue (late_settle_prefix (Suc 0))) = Some (Suc 0, ''g'', 3000)"
    by (simp add: late_settle_1)
  have m: "lookup_messages (messagesMap (late_settle_prefix (Suc 0)))
             (messageMapKey sample_env ''g'' (activeTopicId (late_settle_prefix (Suc 0))))
           = [sample_message User ''hello'']"
    by (simp add: late_settle_1 sample_guard)
  note ff = fire_fields [OF f m _ sample_guard(2) sample_guard(3), simplified]
  show "timer_queue (late_settle_prefix 2) = []"
    "supervisorDebounceTimers (late_settle_prefix 2) = []"
    "supervisorDecisionAbortControllers (late_settle_prefix 2) = [(''g'', 1)]"
    "controller_counter (late_settle_prefix 2) = 1"
    "in_flight (late_settle_prefix 2) = [(1, ''g'')]"
    "aborted (late_settle_prefix 2) = []"
    "timer_counter (late_settle_prefix 2) = 1"
    "messagesMap (late_settle_prefix 2) = Map.empty(''g_null'' \<mapsto> [sample_message User ''hello''])"
    "activeTopicId (late_settle_prefix 2) = None"
    "supervisorDecisionLoading (late_settle_prefix 2) = [''g'']"
    by (simp_all add: late_settle_steps(2) ff late_settle_1)
qed

lemma late_settle_3:
  "timer_queue (late_settle_prefix 3) = [(2, ''g'', 3000)]"
  "supervisorDebounceTimers (late_settle_prefix 3) = [(''g'', 2)]"
  "supervisorDecisionAbortControllers (late_settle_prefix 3) = []"
  "controller_counter (late_settle_prefix 3) = 1"
  "in_flight (late_settle_prefix 3) = [(1, ''g'')]"
  "aborted (late_settle_prefix 3) = [1]"
  "timer_counter (late_settle_prefix 3) = 2"
  "messagesMap (late_settle_prefix 3) = Map.empty(''g_null'' \<mapsto> [sample_message User ''hello''])"
  "activeTopicId (late_settle_prefix 3) = None"
  "supervisorDecisionLoading (late_settle_prefix 3) = []"
  by (simp_all add: late_settle_steps(3) trigger_fields trigger_frame late_settle_2 sample_guard)

lemma late_settle_4:
  "timer_queue (late_settle_prefix 4) = []"
  "supervisorDebounceTimers (late_settle_prefix 4) = []"
  "supervisorDecisionAbortControllers (late_settle_prefix 4) = [(''g'', 2)]"
  "controller_counter (late_settle_prefix 4) = 2"
  "in_flight (late_settle_prefix 4) = [(1, ''g''), (2, ''g'')]"
  "aborted (late_settle_prefix 4) = [1]"
  "timer_counter (late_settle_prefix 4) = 2"
  "messagesMap (late_settle_prefix 4) = Map.empty(''g_null'' \<mapsto> [sample_message User ''hello''])"
  "activeTopicId (late_settle_prefix 4) = None"
  "supervisorDecisionLoading (late_settle_prefix 4) = [''g'']"
proof -
  have f: "find (\<lambda>p. fst p = 2) (timer_queue (late_settle_prefix 3)) = Some (2, ''g'', 3000)"
    by (simp add: late_settle_3)
  have m: "lookup_messages (messagesMap (late_settle_prefix 3))
             (messageMapKey sample_env ''g'' (activeTopicId (late_settle_prefix 3)))
           = [sample_message User ''hello'']"
    by (simp add: late_settle_3 sample_guard)
  note ff = fire_fields [OF f m _ sample_guard(2) sample_guard(3), simplified]
  show "timer_queue (late_settle_prefix 4) = []"
    "supervisorDebounceTimers (late_settle_prefix 4) = []"
    "supervisorDecisionAbortControllers (late_settle_prefix 4) = [(''g'', 2)]"
    "controller_counter (late_settle_prefix 4) = 2"
    "in_flight (late_settle_prefix 4) = [(1, ''g''), (2, ''g'')]"
    "aborted (late_settle_prefix 4) = [1]"
    "timer_counter (late_settle_prefix 4) = 2"
    "messagesMap (late_settle_prefix 4) = Map.empty(''g_null'' \<mapsto> [sample_message User ''hello''])"
    "activeTopicId (late_settle_prefix 4) = None"
    "supervisorDecisionLoading (late_settle_prefix 4) = [''g'']"
    by (simp_all add: late_settle_steps(4) ff late_settle_3)
qed

lemma late_settle_5:
  "timer_queue (late_settle_prefix 5) = []"
  "supervisorDebounceTimers (late_settle_prefix 5) = []"
  "supervisorDecisionAbortControllers (late_settle_prefix 5) = []"
  "controller_counter (late_settle_prefix 5) = 2"
  "in_flight (late_settle_prefix 5) = [(2, ''g'')]"
  "aborted (late_settle_prefix 5) = [1]"
  "timer_counter (late_settle_prefix 5) = 2"
  "messagesMap (late_settle_prefix 5) = Map.empty(''g_null'' \<mapsto> [sample_message User ''hello''])"
  "activeTopicId (late_settle_prefix 5) = None"
  "supervisorDecisionLoading (late_settle_prefix 5) = []"
proof -
  have f: "map_of (in_flight (late_settle_prefix 4)) 1 = Some ''g''"
    by (simp add: late_settle_4)
  have x: "\<not> executing 1 (late_settle_prefix 4)"
    using same_callsD [OF late_settle_no_calls(6)] by (simp add: executing_def late_settle_no_calls)
  note ff = settle_rejected_fields [OF f x, simplified]
  show "timer_queue (late_settle_prefix 5) = []"
    "supervisorDebounceTimers (late_settle_prefix 5) = []"
    "supervisorDecisionAbortControllers (late_settle_prefix 5) = []"
    "controller_counter (late_settle_prefix 5) = 2"
    "in_flight (late_settle_prefix 5) = [(2, ''g'')]"
    "aborted (late_settle_prefix 5) = [1]"
    "timer_counter (late_settle_prefix 5) = 2"
    "messagesMap (late_settle_prefix 5) = Map.empty(''g_null'' \<mapsto> [sample_message User ''hello''])"
    "activeTopicId (late_settle_prefix 5) = None"
    "supervisorDecisionLoading (late_settle_prefix 5) = []"
    by (simp_all add: late_settle_steps(5) ff late_settle_4)
qed

lemma late_settle_6:
  "timer_queue (late_settle_prefix 6) = [(3, ''g'', 3000)]"
  "supervisorDebounceTimers (late_settle_prefix 6) = [(''g'', 3)]"
  "supervisorDecisionAbortControllers (late_settle_prefix 6) = []"
  "controller_counter (late_settle_prefix 6) = 2"
  "in_flight (late_settle_prefix 6) = [(2, ''g'')]"
  "aborted (late_settle_prefix 6) = [1]"
  "timer_counter (late_settle_prefix 6) = 3"
  "messagesMap (late_settle_prefix 6) = Map.empty(''g_null'' \<mapsto> [sample_message User ''hello''])"
  "activeTopicId (late_settle_prefix 6) = None"
  "supervisorDecisionLoading (late_settle_prefix 6) = []"
  by (simp_all add: late_settle_steps(6) trigger_fields trigger_frame late_settle_5 sample_guard)

lemma late_settle_7:
  "timer_queue (late_settle_prefix 7) = []"
  "supervisorDebounceTimers (late_settle_prefix 7) = []"
  "supervisorDecisionAbortControllers (late_settle_prefix 7) = [(''g'', 3)]"
  "controller_counter (late_settle_prefix 7) = 3"
  "in_flight (late_settle_prefix 7) = [(2, ''g''), (3, ''g'')]"
  "aborted (late_settle_prefix 7) = [1]"
  "timer_counter (late_settle_prefix 7) = 3"
  "messagesMap (late_settle_prefix 7) = Map.empty(''g_null'' \<mapsto> [sample_message User ''hello''])"
  "activeTopicId (late_settle_prefix 7) = None"
  "supervisorDecisionLoading (late_settle_prefix 7) = [''g'']"
proof -
  have f: "find (\<lambda>p. fst p = 3) (timer_queue (late_settle_prefix 6)) = Some (3, ''g'', 3000)"
    by (simp add: late_settle_6)
  have m: "lookup_messages (messagesMap (late_settle_prefix 6))
             (messageMapKey sample_env ''g'' (activeTopicId (late_settle_prefix 6)))
           = [sample_message User ''hello'']"
    by (simp add: late_settle_6 sample_guard)
  note ff = fire_fields [OF f m _ sample_guard(2) sample_guard(3), simplified]
  show "timer_queue (late_settle_prefix 7) = []"
    "supervisorDebounceTimers (late_settle_prefix 7) = []"
    "supervisorDecisionAbortControllers (late_settle_prefix 7) = [(''g'', 3)]"
    "controller_counter (late_settle_prefix 7) = 3"
    "in_flight (late_settle_prefix 7) = [(2, ''g''), (3, ''g'')]"
    "aborted (late_settle_prefix 7) = [1]"
    "timer_counter (late_settle_prefix 7) = 3"
    "messagesMap (late_settle_prefix 7) = Map.empty(''g_null'' \<mapsto> [sample_message User ''hello''])"
    "activeTopicId (late_settle_prefix 7) = None"
    "supervisorDecisionLoading (late_settle_prefix 7) = [''g'']"
    by (simp_all add: late_settle_steps(7) ff late_settle_6)
qed

lemma late_settle_state_prefix: "late_settle_state = late_settle_prefix 7"
  by (simp add: late_settle_state_def late_settle_prefix_def late_settle_events_def)

lemma deciding_state_prefix: "deciding_state = late_settle_prefix 2"
  by (simp add: deciding_state_def late_settle_prefix_def late_settle_events_def eval_nat_numeral)

section \<open>The debounce delay\<close>

text \<open>
  C8. The delay chosen for a group's \<open>responseSpeed\<close> is 3000 ms for \<open>fast\<close>, 5000 ms for
  \<open>medium\<close>, 8000 ms for \<open>slow\<close>, and 5000 ms when the value is unset or anything else;
  and the timeout that the debounced trigger schedules carries the delay chosen for the
  configured \<open>responseSpeed\<close>.
\<close>

theorem getDebounceThreshold_table:
  "getDebounceThreshold (Some ''fast'') = 3000
   \<and> getDebounceThreshold (Some ''medium'') = 5000
   \<and> getDebounceThreshold (Some ''slow'') = 8000
   \<and> getDebounceThreshold None = 5000
   \<and> (\<forall>v. v \<noteq> ''fast'' \<and> v \<noteq> ''medium'' \<and> v \<noteq> ''slow''
          \<longrightarrow> getDebounceThreshold (Some v) = 5000)
   \<and> snd (snd (last (timer_queue (internal_triggerSupervisorDecisionDebounced en g s))))
       = getDebounceThreshold (case currentGroupConfig en of None \<Rightarrow> None
                               | Some c \<Rightarrow> cfg_responseSpeed c)"
  by (simp add: getDebounceThreshold_def trigger_fields)

theorem getDebounceThreshold_table_witness:
  "''turbo'' \<noteq> ''fast'' \<and> ''turbo'' \<noteq> ''medium'' \<and> ''turbo'' \<noteq> ''slow''
   \<and> getDebounceThreshold (Some ''turbo'') = 5000"
  using getDebounceThreshold_table by simp



section \<open>Cancelling everything does not touch the loading flags\<close>

lemma deciding_state_registry:
  "supervisorDecisionAbortControllers deciding_state = [(''g'', 1)]"
  "supervisorDecisionLoading deciding_state = [''g'']"
  by (simp_all add: deciding_state_prefix late_settle_2)

text \<open>
  C5 as stated fails: \<open>internal_cancelAllSupervisorDecisions\<close> does not go through the
  per-group cancel and never writes the loading flags. After a timer has fired for the
  group \<open>g\<close> and its decision run is suspended, cancelling everything leaves the loading
  flag of \<open>g\<close> set.
\<close>

theorem cancelAll_keeps_loading_flag:
  "supervisorDecisionAbortControllers deciding_state = [(''g'', 1)]
   \<and> supervisorDecisionLoading deciding_state = [''g'']
   \<and> supervisorDecisionLoading (internal_cancelAllSupervisorDecisions deciding_state) = [''g'']
   \<and> supervisorDecisionLoading (internal_cancelSupervisorDecision ''g'' deciding_state) = []"
  by (simp add: deciding_state_registry cancelAll_simps cancel_simps)

text \<open>
  C5, amended. \<open>internal_cancelAllSupervisorDecisions\<close> clears every registered timer
  (a registered handle is no longer pending afterwards), aborts every registered
  controller, and leaves both registries empty.
\<close>

theorem cancelAll_clears_registry:
  "supervisorDebounceTimers (internal_cancelAllSupervisorDecisions s) = []
   \<and> supervisorDecisionAbortControllers (internal_cancelAllSupervisorDecisions s) = []
   \<and> (\<forall>g h. map_of (supervisorDebounceTimers s) g = Some h \<and> h \<noteq> 0
          \<longrightarrow> h \<notin> fst ` set (timer_queue (internal_cancelAllSupervisorDecisions s)))
   \<and> (\<forall>g c. map_of (supervisorDecisionAbortControllers s) g = Some c
          \<longrightarrow> c \<in> set (aborted (internal_cancelAllSupervisorDecisions s)))"
proof -
  have k: "map_of al g = Some v \<Longrightarrow> g \<in> fst ` set al" for al :: "(string \<times> nat) list" and g v
    by (metis map_of_eq_None_iff option.distinct(1))
  have t: "\<forall>g h. map_of (supervisorDebounceTimers s) g = Some h \<and> h \<noteq> 0
          \<longrightarrow> h \<notin> fst ` set (timer_queue (internal_cancelAllSupervisorDecisions s))"
    using k [of "supervisorDebounceTimers s"] by (auto simp: cancelAll_simps)
  have c: "\<forall>g c. map_of (supervisorDecisionAbortControllers s) g = Some c
          \<longrightarrow> c \<in> set (aborted (internal_cancelAllSupervisorDecisions s))"
    using k [of "supervisorDecisionAbortControllers s"] by (auto simp: cancelAll_simps)
  from t c show ?thesis
    by (simp add: cancelAll_simps)
qed

theorem cancelAll_clears_registry_witness:
  "map_of (supervisorDecisionAbortControllers deciding_state) ''g'' = Some 1
   \<and> 1 \<in> set (aborted (internal_cancelAllSupervisorDecisions deciding_state))
   \<and> supervisorDecisionAbortControllers (internal_cancelAllSupervisorDecisions deciding_state) = []
   \<and> map_of (supervisorDebounceTimers (late_settle_prefix (Suc 0))) ''g'' = Some (Suc 0)
   \<and> Suc 0 \<notin> fst ` set (timer_queue (internal_cancelAllSupervisorDecisions (late_settle_prefix (Suc 0))))
   \<and> supervisorDebounceTimers (internal_cancelAllSupervisorDecisions (late_settle_prefix (Suc 0))) = []"
proof -
  have m: "map_of (supervisorDecisionAbortControllers deciding_state) ''g'' = Some 1"
    by (simp add: deciding_state_registry)
  have n: "map_of (supervisorDebounceTimers (late_settle_prefix (Suc 0))) ''g'' = Some (Suc 0)
             \<and> Suc 0 \<noteq> 0"
    by (simp add: late_settle_1)
  note a = cancelAll_clears_registry [of deciding_state]
  note b = cancelAll_clears_registry [of "late_settle_prefix (Suc 0)"]
  note a2 = a [THEN conjunct2, THEN conjunct1]
  note a4 = a [THEN conjunct2, THEN conjunct2, THEN conjunct2, rule_format, OF m]
  note b1 = b [THEN conjunct1]
  note b3 = b [THEN conjunct2, THEN conjunct2, THEN conjunct1, rule_format, OF n]
  from m a4 a2 n b3 b1 show ?thesis
    by simp
qed

section \<open>A decision run that settles late unregisters its successor\<close>

lemma late_settle_fields:
  "in_flight late_settle_state = [(2, ''g''), (3, ''g'')]"
  "aborted late_settle_state = [1]"
  "supervisorDecisionAbortControllers late_settle_state = [(''g'', 3)]"
  by (simp_all add: late_settle_state_prefix late_settle_7)

text \<open>
  C1, evaluated on the schedule \<open>late_settle_events\<close> for the group \<open>g\<close>: the code does
  not keep the decision runs of a group down to one. The group is triggered and its timer
  fires: run 1 suspends at the decision function. The group is triggered again, which aborts
  run 1, and the second timer fires: after these four events run 2 has registered its
  controller and is suspended beside run 1. Then the decision function of run 1 rejects with
  the \<open>AbortError\<close>, and the \<open>finally\<close> block of run 1 deletes the group's entry of
  \<open>supervisorDecisionAbortControllers\<close>, which by now is the controller of run 2: after
  five events run 2 is in flight and no controller is registered. The third trigger
  therefore aborts nothing, and when its timer fires run 3 starts: at the end run 2 and
  run 3 of the same group are in flight together, and only controller 1 has ever been
  aborted.
\<close>

theorem two_live_runs_for_one_group:
  "supervisorDecisionAbortControllers (late_settle_prefix 4) = [(''g'', 2)]
   \<and> in_flight (late_settle_prefix 4) = [(1, ''g''), (2, ''g'')]
   \<and> aborted (late_settle_prefix 4) = [1]
   \<and> supervisorDecisionAbortControllers (late_settle_prefix 5) = []
   \<and> in_flight (late_settle_prefix 5) = [(2, ''g'')]
   \<and> aborted (late_settle_prefix 6) = [1]
   \<and> in_flight late_settle_state = [(2, ''g''), (3, ''g'')]
   \<and> live_runs ''g'' late_settle_state = [(2, ''g''), (3, ''g'')]
   \<and> aborted late_settle_state = [1]
   \<and> supervisorDecisionAbortControllers late_settle_state = [(''g'', 3)]"
  by (simp add: live_runs_def late_settle_fields late_settle_4 late_settle_5 late_settle_6)

section \<open>Starting the tasks\<close>

lemma task_settle_simps [simp]:
  "fst (task_settle en g a r s) = Finished Resolved"
  "messagesMap (snd (task_settle en g a (Inr u) s)) = messagesMap s"
  "activeTopicId (snd (task_settle en g a r s)) = activeTopicId s"
  by (simp_all add: task_settle_def Let_def process_catch_def split: sum.splits option.splits)

lemma task_settle_sched [simp]:
  "same_sched s (snd (task_settle en g a r t)) = same_sched s t"
  by (simp add: task_settle_def Let_def split: sum.splits)

lemma task_start_status:
  "fst (task_start en g (decision_id d) (decision_target d) s) = started_task en g d s"
  by (simp add: task_start_def started_task_def Let_def split: option.splits)

lemma task_start_frame [simp]:
  "messagesMap (snd (task_start en g a tg s)) = messagesMap s"
  "activeTopicId (snd (task_start en g a tg s)) = activeTopicId s"
  "same_sched s (snd (task_start en g a tg t)) = same_sched s t"
  by (simp_all add: task_start_def Let_def split: option.splits)

lemma started_task_cong:
  "messagesMap s' = messagesMap s \<Longrightarrow> activeTopicId s' = activeTopicId s
     \<Longrightarrow> started_task en g d s' = started_task en g d s"
  by (simp add: started_task_def Let_def split: option.splits)

lemma spawn_task_simps [simp]:
  "fst (spawn_task en g d s) = Suc (task_counter s)"
  "task_counter (snd (spawn_task en g d s)) = Suc (task_counter s)"
  "tasks (snd (spawn_task en g d s))
     = AList.update (Suc (task_counter s)) (started_task en g d s) (tasks s)"
  "messagesMap (snd (spawn_task en g d s)) = messagesMap s"
  "activeTopicId (snd (spawn_task en g d s)) = activeTopicId s"
  "batches (snd (spawn_task en g d s)) = batches s"
  "batch_counter (snd (spawn_task en g d s)) = batch_counter s"
  "sends (snd (spawn_task en g d s)) = sends s"
  "send_counter (snd (spawn_task en g d s)) = send_counter s"
  using same_callsD [of s "snd (task_start en g (decision_id d) (decision_target d) s)"]
        task_start_status [of en g d s]
  by (simp_all add: spawn_task_def Let_def split_def)

lemma spawn_task_sched [simp]:
  "same_sched s (snd (spawn_task en g d t)) = same_sched s t"
proof -
  have "same_sched s (u\<lparr>task_counter := n, tasks := x\<rparr>) = same_sched s u" for u n x
    by (simp add: same_sched_def)
  then show ?thesis by (simp add: spawn_task_def Let_def split_def)
qed

lemma created_emit [simp]:
  "created (emit e s) = created s @ (case e of CreateMessage p \<Rightarrow> [p] | _ \<Rightarrow> [])"
  by (simp add: created_def)

lemma created_trace: "trace s' = trace s \<Longrightarrow> created s' = created s"
  by (simp add: created_def)

lemma task_start_created:
  "created (snd (task_start en g a tg s)) = created s @ awaited_create (fst (task_start en g a tg s))"
  by (simp add: task_start_def task_settle_def awaited_create_def Let_def split: option.splits)

lemma spawn_task_created [simp]:
  "created (snd (spawn_task en g d s)) = created s @ awaited_create (started_task en g d s)"
proof -
  have "created (u\<lparr>task_counter := n, tasks := x\<rparr>) = created u" for u n x
    by (simp add: created_def)
  then show ?thesis
    using task_start_created [of en g "decision_id d" "decision_target d" s]
    by (simp add: spawn_task_def Let_def split_def task_start_status)
qed

lemma spawn_all_created:
  "created (snd (spawn_all en g ds s))
     = created s @ concat (map (\<lambda>d. awaited_create (started_task en g d s)) ds)"
proof (induction ds arbitrary: s)
  case Nil
  then show ?case by simp
next
  case (Cons d ds)
  have b: "started_task en g d' (snd (spawn_task en g d s)) = started_task en g d' s" for d'
    by (rule started_task_cong) simp_all
  show ?case
    by (simp add: Let_def split_def Cons.IH b)
qed

lemma spawn_all_ids:
  "fst (spawn_all en g ds s) = [Suc (task_counter s) ..< Suc (task_counter s) + length ds]"
proof (induction ds arbitrary: s)
  case Nil
  then show ?case by simp
next
  case (Cons d ds)
  have u: "[Suc c ..< Suc c + Suc n] = Suc c # [Suc (Suc c) ..< Suc (Suc c) + n]" for c n
    by (subst upt_rec) simp
  show ?case
    using u [of "task_counter s" "length ds"] by (simp add: Let_def split_def Cons.IH)
qed

lemma spawn_all_frame [simp]:
  "task_counter (snd (spawn_all en g ds s)) = task_counter s + length ds"
  "messagesMap (snd (spawn_all en g ds s)) = messagesMap s"
  "activeTopicId (snd (spawn_all en g ds s)) = activeTopicId s"
  "batches (snd (spawn_all en g ds s)) = batches s"
  "batch_counter (snd (spawn_all en g ds s)) = batch_counter s"
  "sends (snd (spawn_all en g ds s)) = sends s"
  "send_counter (snd (spawn_all en g ds s)) = send_counter s"
  by (induction ds arbitrary: s) (simp_all add: Let_def split_def)

lemma spawn_all_sched [simp]:
  "same_sched s (snd (spawn_all en g ds t)) = same_sched s t"
  by (induction ds arbitrary: t) (simp_all add: Let_def split_def)

lemma spawn_all_old:
  "n \<le> task_counter s \<Longrightarrow> map_of (tasks (snd (spawn_all en g ds s))) n = map_of (tasks s) n"
  by (induction ds arbitrary: s) (simp_all add: Let_def split_def update_conv')

lemma spawn_all_statuses:
  "map (map_of (tasks (snd (spawn_all en g ds s)))) (fst (spawn_all en g ds s))
     = map (\<lambda>d. Some (started_task en g d s)) ds"
proof (induction ds arbitrary: s)
  case Nil
  then show ?case by simp
next
  case (Cons d ds)
  let ?s1 = "snd (spawn_task en g d s)"
  have a: "map_of (tasks (snd (spawn_all en g ds ?s1))) (Suc (task_counter s))
             = Some (started_task en g d s)"
    by (simp add: spawn_all_old update_conv')
  have b: "started_task en g d' ?s1 = started_task en g d' s" for d'
    by (rule started_task_cong) simp_all
  show ?case
    using Cons.IH [of ?s1] a by (simp add: Let_def split_def b)
qed

section \<open>The executor and its tasks, one piece at a time\<close>

lemma calls_trigger [simp]:
  "tasks (internal_triggerSupervisorDecisionDebounced en g s) = tasks s"
  "task_counter (internal_triggerSupervisorDecisionDebounced en g s) = task_counter s"
  "batches (internal_triggerSupervisorDecisionDebounced en g s) = batches s"
  "batch_counter (internal_triggerSupervisorDecisionDebounced en g s) = batch_counter s"
  "sends (internal_triggerSupervisorDecisionDebounced en g s) = sends s"
  "send_counter (internal_triggerSupervisorDecisionDebounced en g s) = send_counter s"
  using same_callsD [of s "internal_triggerSupervisorDecisionDebounced en g s"] by simp_all

lemma calls_finally [simp]:
  "tasks (decision_finally g s) = tasks s"
  "task_counter (decision_finally g s) = task_counter s"
  "batches (decision_finally g s) = batches s"
  "batch_counter (decision_finally g s) = batch_counter s"
  "sends (decision_finally g s) = sends s"
  "send_counter (decision_finally g s) = send_counter s"
  using same_callsD [of s "decision_finally g s"] by simp_all

lemma calls_emit [simp]:
  "tasks (emit e s) = tasks s"
  "task_counter (emit e s) = task_counter s"
  "batches (emit e s) = batches s"
  "batch_counter (emit e s) = batch_counter s"
  "sends (emit e s) = sends s"
  "send_counter (emit e s) = send_counter s"
  by (simp_all add: emit_def)

lemma calls_task_resume [simp]:
  "tasks (snd (task_resume en t s)) = tasks s"
  "task_counter (snd (task_resume en t s)) = task_counter s"
  "batches (snd (task_resume en t s)) = batches s"
  "batch_counter (snd (task_resume en t s)) = batch_counter s"
  "sends (snd (task_resume en t s)) = sends s"
  "send_counter (snd (task_resume en t s)) = send_counter s"
  using same_callsD [of s "snd (task_resume en t s)"] by simp_all

lemma executor_start_simps:
  "map_of (batches (executor_start en g c ds s)) (Suc (batch_counter s))
     = Some \<lparr>batch_groupId = g, batch_decisions = ds,
             batch_promises = [Suc (task_counter s) ..< Suc (task_counter s) + length ds],
             batch_owner = c\<rparr>"
  "batch_counter (executor_start en g c ds s) = Suc (batch_counter s)"
  "task_counter (executor_start en g c ds s) = task_counter s + length ds"
  "tasks (executor_start en g c ds s) = tasks (snd (spawn_all en g ds s))"
  "sends (executor_start en g c ds s) = sends s"
  "send_counter (executor_start en g c ds s) = send_counter s"
  by (simp_all add: executor_start_def Let_def split_def update_conv' spawn_all_ids)

lemma executor_start_old_batch:
  "b \<le> batch_counter s \<Longrightarrow> map_of (batches (executor_start en g c ds s)) b = map_of (batches s) b"
  by (simp add: executor_start_def Let_def split_def update_conv')

lemma executor_start_old_task:
  "n \<le> task_counter s \<Longrightarrow> map_of (tasks (executor_start en g c ds s)) n = map_of (tasks s) n"
  by (simp add: executor_start_simps spawn_all_old)

lemma executor_start_statuses:
  "map (map_of (tasks (executor_start en g c ds s)))
       [Suc (task_counter s) ..< Suc (task_counter s) + length ds]
     = map (\<lambda>d. Some (started_task en g d s)) ds"
  using spawn_all_statuses [of en g ds s] by (simp add: executor_start_simps spawn_all_ids)

lemma executor_start_created:
  "created (executor_start en g c ds s)
     = created s @ concat (map (\<lambda>d. awaited_create (started_task en g d s)) ds)"
proof -
  have "created (u\<lparr>batch_counter := n, batches := x\<rparr>) = created u" for u n x
    by (simp add: created_def)
  then show ?thesis by (simp add: executor_start_def Let_def split_def spawn_all_created)
qed

lemma executor_start_sched: "same_sched s (executor_start en g c ds s)"
proof -
  have "same_sched s (u\<lparr>batch_counter := n, batches := x\<rparr>) = same_sched s u" for u n x
    by (simp add: same_sched_def)
  then show ?thesis by (simp add: executor_start_def Let_def split_def)
qed

lemma task_resume_progress:
  "(\<exists>t'. fst (task_resume en t s) = Suspended t' \<and> pc_rank (task_pc t') < pc_rank (task_pc t))
   \<or> fst (task_resume en t s) = Finished Resolved"
  by (simp add: task_resume_def task_await_def Let_def split_def
           split: task_pc.splits sum.splits option.splits)

lemma task_step_simps [simp]:
  "task_counter (task_step en n s) = task_counter s"
  "batches (task_step en n s) = batches s"
  "batch_counter (task_step en n s) = batch_counter s"
  "sends (task_step en n s) = sends s"
  "send_counter (task_step en n s) = send_counter s"
  by (simp_all add: task_step_def Let_def split_def
               split: option.splits task_status.splits)

lemma task_step_other:
  "n' \<noteq> n \<Longrightarrow> map_of (tasks (task_step en n s)) n' = map_of (tasks s) n'"
  by (simp add: task_step_def Let_def split_def update_conv'
           split: option.splits task_status.splits)

lemma task_step_rank:
  "status_rank (map_of (tasks (task_step en n s)) n) \<le> status_rank (map_of (tasks s) n) - 1"
proof (cases "map_of (tasks s) n")
  case None
  then show ?thesis by (simp add: task_step_def status_rank_def)
next
  case (Some p)
  show ?thesis
  proof (cases p)
    case (Finished r)
    with Some show ?thesis by (simp add: task_step_def status_rank_def)
  next
    case (Suspended t)
    with Some task_resume_progress [of en t s] show ?thesis
      by (auto simp: task_step_def Let_def split_def update_conv' status_rank_def)
  qed
qed

lemma task_step_ok:
  assumes "pending_or_fulfilled (map_of (tasks s) n)"
  shows "pending_or_fulfilled (map_of (tasks (task_step en n s)) n)"
proof (cases "map_of (tasks s) n")
  case None
  with assms show ?thesis by (simp add: task_step_def)
next
  case (Some p)
  show ?thesis
  proof (cases p)
    case (Finished r)
    with Some assms show ?thesis by (simp add: task_step_def)
  next
    case (Suspended t)
    with Some task_resume_progress [of en t s] show ?thesis
      by (auto simp: task_step_def Let_def split_def update_conv' pending_or_fulfilled_def)
  qed
qed

lemma executor_join_simps [simp]:
  "tasks (executor_join en b s) = tasks s"
  "task_counter (executor_join en b s) = task_counter s"
  "batch_counter (executor_join en b s) = batch_counter s"
  "sends (executor_join en b s) = sends s"
  "send_counter (executor_join en b s) = send_counter s"
  by (simp_all add: executor_join_def Let_def split: option.splits sum.splits)

lemma executor_join_batches:
  "batches (executor_join en b s) = batches s
   \<or> batches (executor_join en b s) = AList.delete b (batches s)"
  by (simp add: executor_join_def Let_def split: option.splits sum.splits)

lemma executor_join_other:
  "b' \<noteq> b \<Longrightarrow> map_of (batches (executor_join en b s)) b' = map_of (batches s) b'"
  using executor_join_batches [of en b s] by (auto simp: delete_conv)

lemma executor_join_gone:
  "map_of (batches s) b' = None \<Longrightarrow> map_of (batches (executor_join en b s)) b' = None"
  using executor_join_batches [of en b s] by (auto simp: delete_conv)

lemma send_begin_calls [simp]:
  "tasks (send_begin en p s) = tasks s"
  "task_counter (send_begin en p s) = task_counter s"
  "batches (send_begin en p s) = batches s"
  "batch_counter (send_begin en p s) = batch_counter s"
  by (simp_all add: send_begin_def Let_def internal_setActiveGroup_def set_isCreatingMessage_def)

lemma send_step_calls [simp]:
  "tasks (send_step en n s) = tasks s"
  "task_counter (send_step en n s) = task_counter s"
  "batches (send_step en n s) = batches s"
  "batch_counter (send_step en n s) = batch_counter s"
proof -
  have c: "tasks (snd (call_collab f t)) = tasks t \<and> task_counter (snd (call_collab f t)) = task_counter t
      \<and> batches (snd (call_collab f t)) = batches t \<and> batch_counter (snd (call_collab f t)) = batch_counter t"
    for t and f :: "messages_map \<Rightarrow> (thrown + string option) \<times> messages_map"
    using same_callsD [of t "snd (call_collab f t)"] by simp
  show "tasks (send_step en n s) = tasks s"
    "task_counter (send_step en n s) = task_counter s"
    "batches (send_step en n s) = batches s"
    "batch_counter (send_step en n s) = batch_counter s"
    by (simp_all add: send_step_def Let_def split_def set_isCreatingMessage_def c
                 split: option.splits sum.splits)
qed

lemma settle_cases:
  "settle en c outcome s = s
   \<or> (\<exists>g e. settle en c outcome s = decision_resume en g c (Inl e) s)
   \<or> (\<exists>g. settle en c outcome s = decision_resume en g c (Inr []) s)
   \<or> (\<exists>g ds. settle en c outcome s
         = executor_start en g c ds (emit (ConsoleLog (SupervisorDecisions ds)) s))"
  by (auto simp: settle_def split: option.splits sum.splits)

lemma settle_calls:
  "task_counter s \<le> task_counter (settle en c outcome s)"
  "batch_counter s \<le> batch_counter (settle en c outcome s)"
  "n \<le> task_counter s \<Longrightarrow> map_of (tasks (settle en c outcome s)) n = map_of (tasks s) n"
  "b \<le> batch_counter s \<Longrightarrow> map_of (batches (settle en c outcome s)) b = map_of (batches s) b"
proof -
  have r: "tasks (decision_resume en g c (Inl e) s) = tasks s
      \<and> task_counter (decision_resume en g c (Inl e) s) = task_counter s
      \<and> batches (decision_resume en g c (Inl e) s) = batches s
      \<and> batch_counter (decision_resume en g c (Inl e) s) = batch_counter s" for g e
    using same_callsD [of s "decision_resume en g c (Inl e) s"] by simp
  have r0: "tasks (decision_resume en g c (Inr []) s) = tasks s
      \<and> task_counter (decision_resume en g c (Inr []) s) = task_counter s
      \<and> batches (decision_resume en g c (Inr []) s) = batches s
      \<and> batch_counter (decision_resume en g c (Inr []) s) = batch_counter s" for g
    using same_callsD [of s "decision_resume en g c (Inr []) s"] by simp
  note x = executor_start_simps executor_start_old_batch executor_start_old_task
  show "task_counter s \<le> task_counter (settle en c outcome s)"
    using settle_cases [of en c outcome s] r r0
    by (auto simp: executor_start_simps)
  show "batch_counter s \<le> batch_counter (settle en c outcome s)"
    using settle_cases [of en c outcome s] r r0
    by (auto simp: executor_start_simps)
  show "n \<le> task_counter s \<Longrightarrow> map_of (tasks (settle en c outcome s)) n = map_of (tasks s) n"
    using settle_cases [of en c outcome s] r r0
    by (auto simp: executor_start_old_task)
  show "b \<le> batch_counter s \<Longrightarrow> map_of (batches (settle en c outcome s)) b = map_of (batches s) b"
    using settle_cases [of en c outcome s] r r0
    by (auto simp: executor_start_old_batch)
qed

section \<open>Suspended calls along a schedule\<close>

lemma step_frame:
  assumes "\<forall>m. ev \<noteq> TaskStep m" and "\<forall>m. ev \<noteq> Join m"
    and "\<forall>c outcome. ev \<noteq> Settle c outcome"
  shows "tasks (step en s ev) = tasks s \<and> task_counter (step en s ev) = task_counter s
     \<and> batches (step en s ev) = batches s \<and> batch_counter (step en s ev) = batch_counter s"
proof (cases ev)
  case (Trigger g)
  then show ?thesis by simp
next
  case (Cancel g)
  then show ?thesis using same_callsD [of s "internal_cancelSupervisorDecision g s"] by simp
next
  case CancelAll
  then show ?thesis using same_callsD [of s "internal_cancelAllSupervisorDecisions s"] by simp
next
  case (Fire h)
  then show ?thesis using same_callsD [of s "fire en h s"] by simp
qed (use assms in simp_all)

lemma step_counters:
  "task_counter s \<le> task_counter (step en s ev)"
  "batch_counter s \<le> batch_counter (step en s ev)"
  using step_frame [of ev en s] settle_calls(1,2) [of s en]
  by (cases ev; auto)+

lemma step_other_task:
  assumes "n \<le> task_counter s" and "ev \<noteq> TaskStep n"
  shows "map_of (tasks (step en s ev)) n = map_of (tasks s) n"
proof (cases ev)
  case (Settle c outcome)
  with assms(1) show ?thesis by (simp add: settle_calls)
next
  case (TaskStep m)
  with assms(2) show ?thesis by (simp add: task_step_other)
next
  case (Join m)
  then show ?thesis by simp
qed (use step_frame [of ev en s] in auto)

lemma step_rank:
  assumes "n \<le> task_counter s"
  shows "status_rank (map_of (tasks (step en s ev)) n)
           \<le> status_rank (map_of (tasks s) n) - (if ev = TaskStep n then 1 else 0)"
proof (cases "ev = TaskStep n")
  case True
  then show ?thesis using task_step_rank [of en n s] by simp
next
  case False
  then show ?thesis using step_other_task [OF assms False] by simp
qed

lemma step_ok:
  assumes "n \<le> task_counter s" and "pending_or_fulfilled (map_of (tasks s) n)"
  shows "pending_or_fulfilled (map_of (tasks (step en s ev)) n)"
proof (cases "ev = TaskStep n")
  case True
  then show ?thesis using task_step_ok [OF assms(2)] by simp
next
  case False
  then show ?thesis using step_other_task [OF assms(1) False] assms(2) by simp
qed

lemma step_batch:
  assumes "b \<le> batch_counter s" and "ev \<noteq> Join b"
  shows "map_of (batches (step en s ev)) b = map_of (batches s) b"
proof (cases ev)
  case (Settle c outcome)
  with assms(1) show ?thesis by (simp add: settle_calls)
next
  case (TaskStep m)
  then show ?thesis by simp
next
  case (Join m)
  with assms(2) show ?thesis by (simp add: executor_join_other)
qed (use step_frame [of ev en s] in auto)

lemma step_batch_gone:
  assumes "b \<le> batch_counter s" and "map_of (batches s) b = None"
  shows "map_of (batches (step en s ev)) b = None"
proof (cases "ev = Join b")
  case True
  then show ?thesis using assms(2) by (simp add: executor_join_gone)
next
  case False
  then show ?thesis using step_batch [OF assms(1) False] assms(2) by simp
qed

lemma run_Cons: "run en (ev # evs) s = run en evs (step en s ev)"
  by (simp add: run_def)

lemma run_Nil: "run en [] s = s"
  by (simp add: run_def)

lemma run_counters:
  "task_counter s \<le> task_counter (run en evs s)"
  "batch_counter s \<le> batch_counter (run en evs s)"
proof (induction evs arbitrary: s)
  case Nil
  { case 1 show ?case by (simp add: run_Nil) }
  { case 2 show ?case by (simp add: run_Nil) }
next
  case (Cons ev evs)
  { case 1 show ?case using Cons.IH(1) [of "step en s ev"] step_counters(1) [of s en ev]
      by (simp add: run_Cons) }
  { case 2 show ?case using Cons.IH(2) [of "step en s ev"] step_counters(2) [of s en ev]
      by (simp add: run_Cons) }
qed

lemma run_rank:
  "n \<le> task_counter s \<Longrightarrow>
     status_rank (map_of (tasks (run en evs s)) n)
       \<le> status_rank (map_of (tasks s) n) - count_list evs (TaskStep n)"
proof (induction evs arbitrary: s)
  case Nil
  then show ?case by (simp add: run_Nil)
next
  case (Cons ev evs)
  have n: "n \<le> task_counter (step en s ev)"
    using Cons.prems step_counters(1) [of s en ev] by simp
  from Cons.IH [OF n] step_rank [OF Cons.prems, of en ev]
  show ?case by (auto simp: run_Cons)
qed

lemma run_ok:
  "n \<le> task_counter s \<Longrightarrow> pending_or_fulfilled (map_of (tasks s) n)
     \<Longrightarrow> pending_or_fulfilled (map_of (tasks (run en evs s)) n)"
proof (induction evs arbitrary: s)
  case Nil
  then show ?case by (simp add: run_Nil)
next
  case (Cons ev evs)
  have n: "n \<le> task_counter (step en s ev)"
    using Cons.prems(1) step_counters(1) [of s en ev] by simp
  from Cons.IH [OF n step_ok [OF Cons.prems]] show ?case by (simp add: run_Cons)
qed

lemma run_batch:
  "b \<le> batch_counter s \<Longrightarrow> Join b \<notin> set evs
     \<Longrightarrow> map_of (batches (run en evs s)) b = map_of (batches s) b"
proof (induction evs arbitrary: s)
  case Nil
  then show ?case by (simp add: run_Nil)
next
  case (Cons ev evs)
  have b: "b \<le> batch_counter (step en s ev)"
    using Cons.prems(1) step_counters(2) [of s en ev] by simp
  have ne: "ev \<noteq> Join b" "Join b \<notin> set evs" using Cons.prems(2) by auto
  from Cons.IH [OF b ne(2)] step_batch [OF Cons.prems(1) ne(1)] show ?case
    by (simp add: run_Cons)
qed

lemma run_batch_gone:
  "b \<le> batch_counter s \<Longrightarrow> map_of (batches s) b = None
     \<Longrightarrow> map_of (batches (run en evs s)) b = None"
proof (induction evs arbitrary: s)
  case Nil
  then show ?case by (simp add: run_Nil)
next
  case (Cons ev evs)
  have b: "b \<le> batch_counter (step en s ev)"
    using Cons.prems(1) step_counters(2) [of s en ev] by simp
  from Cons.IH [OF b step_batch_gone [OF Cons.prems]] show ?case by (simp add: run_Cons)
qed

lemma promise_all_fulfilling:
  "list_all pending_or_fulfilled ps
     \<Longrightarrow> promise_all ps
           = (if list_all (\<lambda>p. p = Some (Finished Resolved)) ps then Some (Inr ()) else None)"
  by (induction ps)
     (auto simp: pending_or_fulfilled_def
           split: option.splits task_status.splits task_result.splits sum.splits)

lemma executor_join_absent:
  "map_of (batches s) b = None \<Longrightarrow> executor_join en b s = s"
  by (simp add: executor_join_def)

lemma executor_join_effect:
  assumes "map_of (batches s) b
             = Some \<lparr>batch_groupId = g, batch_decisions = ds, batch_promises = ns, batch_owner = c\<rparr>"
    and "list_all (\<lambda>n. pending_or_fulfilled (map_of (tasks s) n)) ns"
  shows "executor_join en b s
     = (if fulfilled_all ns s
        then (let t = s\<lparr>batches := AList.delete b (batches s)\<rparr>;
                  t1 = (if length ds > 0
                        then internal_triggerSupervisorDecisionDebounced en g t else t);
                  t2 = decision_finally g t1
              in t2\<lparr>in_flight := filter (\<lambda>p. fst p \<noteq> c) (in_flight t2)\<rparr>)
        else s)"
proof -
  have "list_all pending_or_fulfilled (map (map_of (tasks s)) ns)"
    using assms(2) by (simp add: list_all_iff)
  from promise_all_fulfilling [OF this]
  have p: "promise_all (map (map_of (tasks s)) ns)
         = (if fulfilled_all ns s then Some (Inr ()) else None)"
    by (simp add: fulfilled_all_def list_all_iff)
  show ?thesis
    using assms(1) p by (simp add: executor_join_def Let_def)
qed

section \<open>The executor starts one task per decision, waits for all, and re-arms once\<close>

lemma started_task_ok:
  "pending_or_fulfilled (Some (started_task en g d s))"
  "status_rank (Some (started_task en g d s)) \<le> 4"
  by (simp_all add: started_task_def Let_def pending_or_fulfilled_def status_rank_def
               split: option.splits)

lemma rank_zero_fulfilled:
  "pending_or_fulfilled p \<Longrightarrow> status_rank p = 0 \<Longrightarrow> p = Some (Finished Resolved)"
proof -
  have "0 < pc_rank pc" for pc by (cases pc) simp_all
  then have r: "(pc_rank (task_pc t) = 0) = False" for t by simp
  show "pending_or_fulfilled p \<Longrightarrow> status_rank p = 0 \<Longrightarrow> p = Some (Finished Resolved)"
    by (auto simp: pending_or_fulfilled_def status_rank_def r
             split: option.splits task_status.splits task_result.splits)
qed

text \<open>
  C2. The executor is handed the decisions \<open>ds\<close> for the group \<open>g\<close>, in any state \<open>s\<close>; \<open>s1\<close>
  is the state when it suspends at \<open>Promise.all\<close>, and \<open>s2\<close> a state reached from there by
  any schedule of events. The executor waits for one promise per decision, and the promise
  of a decision is that of the task started for this decision's agent and target; starting
  the tasks requests their placeholder messages in the order of the decisions and leaves the
  scheduler as it was. Whatever the schedule, a task of the executor is suspended or has
  fulfilled, never rejected, also when its collaborators reject, and it has settled once it
  has been resumed four times; a step of one task leaves the promise of every other task as
  it is. As long as the executor has not been resumed, resuming it does nothing unless
  every one of its promises has fulfilled; then it arms the debounced trigger if there is
  at least one decision, and only then, so that one timer more has been handed out exactly
  when the tasks have all fulfilled and there is a decision; the decision run that awaits
  the executor goes to its \<open>finally\<close> block; and the executor is never resumed again.
  With no decision there is no promise to wait for and no timer is armed.
\<close>

theorem executor_fans_out_and_joins:
  assumes "s1 = executor_start en g c ds s"
    and "b = Suc (batch_counter s)"
    and "ns = [Suc (task_counter s) ..< Suc (task_counter s) + length ds]"
    and "s2 = run en evs s1"
  shows "map_of (batches s1) b
           = Some \<lparr>batch_groupId = g, batch_decisions = ds, batch_promises = ns, batch_owner = c\<rparr>
     \<and> map (map_of (tasks s1)) ns = map (\<lambda>d. Some (started_task en g d s)) ds
     \<and> created s1 = created s @ concat (map (\<lambda>d. awaited_create (started_task en g d s)) ds)
     \<and> same_sched s s1
     \<and> list_all (\<lambda>n. pending_or_fulfilled (map_of (tasks s2) n)
                      \<and> status_rank (map_of (tasks s2) n) \<le> 4 - count_list evs (TaskStep n)) ns
     \<and> (\<forall>n n'. n' \<noteq> n \<longrightarrow> map_of (tasks (step en s2 (TaskStep n'))) n = map_of (tasks s2) n)
     \<and> (Join b \<notin> set evs \<longrightarrow>
          step en s2 (Join b)
            = (if fulfilled_all ns s2
               then (let t = s2\<lparr>batches := AList.delete b (batches s2)\<rparr>;
                         t1 = (if length ds > 0
                               then internal_triggerSupervisorDecisionDebounced en g t else t);
                         t2 = decision_finally g t1
                     in t2\<lparr>in_flight := filter (\<lambda>p. fst p \<noteq> c) (in_flight t2)\<rparr>)
               else s2)
          \<and> timer_counter (step en s2 (Join b))
              = timer_counter s2 + (if fulfilled_all ns s2 \<and> length ds > 0 then 1 else 0)
          \<and> (fulfilled_all ns s2 \<longrightarrow>
               (\<forall>evs'. step en (run en evs' (step en s2 (Join b))) (Join b)
                         = run en evs' (step en s2 (Join b)))))"
proof -
  let ?w = "\<lparr>batch_groupId = g, batch_decisions = ds, batch_promises = ns, batch_owner = c\<rparr>"
  have A: "map_of (batches s1) b = Some ?w"
    by (simp add: assms executor_start_simps)
  have B: "map (map_of (tasks s1)) ns = map (\<lambda>d. Some (started_task en g d s)) ds"
    unfolding assms(1,3) by (rule executor_start_statuses)
  have B2: "created s1 = created s @ concat (map (\<lambda>d. awaited_create (started_task en g d s)) ds)"
    by (simp add: assms(1) executor_start_created)
  have C: "same_sched s s1"
    by (simp add: assms executor_start_sched)
  have tc: "task_counter s1 = task_counter s + length ds" and bc: "batch_counter s1 = b"
    by (simp_all add: assms executor_start_simps)
  have init: "n \<le> task_counter s1 \<and> pending_or_fulfilled (map_of (tasks s1) n)
      \<and> status_rank (map_of (tasks s1) n) \<le> 4" if "n \<in> set ns" for n
  proof -
    from that have "map_of (tasks s1) n \<in> set (map (map_of (tasks s1)) ns)" by simp
    then have "map_of (tasks s1) n \<in> set (map (\<lambda>d. Some (started_task en g d s)) ds)"
      by (simp only: B)
    then obtain d where "map_of (tasks s1) n = Some (started_task en g d s)" by auto
    moreover have "n \<le> task_counter s1" using that by (auto simp: tc assms(3))
    ultimately show ?thesis by (simp add: started_task_ok)
  qed
  have ok: "pending_or_fulfilled (map_of (tasks s2) n)" if "n \<in> set ns" for n
    using init [OF that] run_ok [of n s1 en evs] by (simp add: assms(4))
  have rk: "status_rank (map_of (tasks s2) n) \<le> 4 - count_list evs (TaskStep n)"
    if "n \<in> set ns" for n
    using init [OF that] run_rank [of n s1 en evs] by (auto simp: assms(4))
  have D: "list_all (\<lambda>n. pending_or_fulfilled (map_of (tasks s2) n)
                      \<and> status_rank (map_of (tasks s2) n) \<le> 4 - count_list evs (TaskStep n)) ns"
    using ok rk by (simp add: list_all_iff)
  have E: "\<forall>n n'. n' \<noteq> n \<longrightarrow> map_of (tasks (step en s2 (TaskStep n'))) n = map_of (tasks s2) n"
    by (simp add: task_step_other)
  have FGH: "step en s2 (Join b)
            = (if fulfilled_all ns s2
               then (let t = s2\<lparr>batches := AList.delete b (batches s2)\<rparr>;
                         t1 = (if length ds > 0
                               then internal_triggerSupervisorDecisionDebounced en g t else t);
                         t2 = decision_finally g t1
                     in t2\<lparr>in_flight := filter (\<lambda>p. fst p \<noteq> c) (in_flight t2)\<rparr>)
               else s2)
          \<and> timer_counter (step en s2 (Join b))
              = timer_counter s2 + (if fulfilled_all ns s2 \<and> length ds > 0 then 1 else 0)
          \<and> (fulfilled_all ns s2 \<longrightarrow>
               (\<forall>evs'. step en (run en evs' (step en s2 (Join b))) (Join b)
                         = run en evs' (step en s2 (Join b))))"
    if nj: "Join b \<notin> set evs"
  proof -
    have reg: "map_of (batches s2) b = Some ?w"
      using run_batch [of b s1 evs en] nj A by (simp add: bc assms(4))
    have okall: "list_all (\<lambda>n. pending_or_fulfilled (map_of (tasks s2) n)) ns"
      using ok by (simp add: list_all_iff)
    note F = executor_join_effect [OF reg okall, of en]
    have H: "timer_counter (executor_join en b s2)
              = timer_counter s2 + (if fulfilled_all ns s2 \<and> length ds > 0 then 1 else 0)"
      by (simp add: F Let_def decision_finally_simps trigger_frame)
    have G: "step en (run en evs' (executor_join en b s2)) (Join b)
               = run en evs' (executor_join en b s2)" if f: "fulfilled_all ns s2" for evs'
    proof -
      have gone: "map_of (batches (executor_join en b s2)) b = None"
        using f by (simp add: F Let_def delete_conv)
      have le: "b \<le> batch_counter (executor_join en b s2)"
        using run_counters(2) [of s1 en evs] by (simp add: bc assms(4))
      from run_batch_gone [OF le gone, of en evs'] show ?thesis
        by (simp add: executor_join_absent)
    qed
    from F H G show ?thesis by simp
  qed
  from A B B2 C D E FGH show ?thesis by blast
qed

lemma deciding_state_calls:
  "task_counter deciding_state = 0" "batch_counter deciding_state = 0"
  "messagesMap deciding_state = Map.empty(''g_null'' \<mapsto> [sample_message User ''hello''])"
  "activeTopicId deciding_state = None"
  using same_callsD [OF late_settle_no_calls(5)]
  by (simp_all add: deciding_state_prefix late_settle_no_calls late_settle_2)

lemma fan_out_started:
  "started_task failing_fetch_env ''g'' \<lparr>decision_id = ''A'', decision_target = None\<rparr> deciding_state
     = Suspended
         \<lparr>task_groupId = ''g'', task_agentId = ''A'', task_targetId = None,
          task_agentData = sample_agent ''A'',
          task_messages = [sample_message User ''hello''],
          task_pc = AwaitCreateMessage
                      (agent_message failing_fetch_env ''g'' ''A'' None (sample_agent ''A'') None)\<rparr>"
  "started_task failing_fetch_env ''g'' \<lparr>decision_id = ''B'', decision_target = Some ''A''\<rparr> deciding_state
     = Suspended
         \<lparr>task_groupId = ''g'', task_agentId = ''B'', task_targetId = Some ''A'',
          task_agentData = sample_agent ''B'',
          task_messages = [sample_message User ''hello''],
          task_pc = AwaitCreateMessage
                      (agent_message failing_fetch_env ''g'' ''B'' (Some ''A'') (sample_agent ''B'') None)\<rparr>"
  by (simp_all add: started_task_def deciding_state_calls lookup_messages_def Let_def
                    failing_fetch_env_def sample_env_def sample_key_def find_agent_def
                    sample_agent_def truthy_def)

theorem executor_fans_out_and_joins_witness:
  "map_of (batches fan_out_state) 1
     = Some \<lparr>batch_groupId = ''g'', batch_decisions = two_decisions, batch_promises = [1, 2],
             batch_owner = 1\<rparr>
   \<and> map (map_of (tasks fan_out_state)) [1, 2]
       = [Some (Suspended
                 \<lparr>task_groupId = ''g'', task_agentId = ''A'', task_targetId = None,
                  task_agentData = sample_agent ''A'',
                  task_messages = [sample_message User ''hello''],
                  task_pc = AwaitCreateMessage
                              (agent_message failing_fetch_env ''g'' ''A'' None
                                 (sample_agent ''A'') None)\<rparr>),
          Some (Suspended
                 \<lparr>task_groupId = ''g'', task_agentId = ''B'', task_targetId = Some ''A'',
                  task_agentData = sample_agent ''B'',
                  task_messages = [sample_message User ''hello''],
                  task_pc = AwaitCreateMessage
                              (agent_message failing_fetch_env ''g'' ''B'' (Some ''A'')
                                 (sample_agent ''B'') None)\<rparr>)]
   \<and> Join 1 \<notin> set fan_out_events
   \<and> fulfilled_all [1, 2] (run failing_fetch_env fan_out_events fan_out_state)
   \<and> timer_counter (step failing_fetch_env
                       (run failing_fetch_env fan_out_events fan_out_state) (Join 1))
       = timer_counter (run failing_fetch_env fan_out_events fan_out_state) + 1
   \<and> step failing_fetch_env
        (run failing_fetch_env [Trigger ''g'', Join 1]
           (step failing_fetch_env (run failing_fetch_env fan_out_events fan_out_state) (Join 1)))
        (Join 1)
       = run failing_fetch_env [Trigger ''g'', Join 1]
           (step failing_fetch_env (run failing_fetch_env fan_out_events fan_out_state) (Join 1))"
proof -
  let ?s2 = "run failing_fetch_env fan_out_events fan_out_state"
  have ns: "[Suc (task_counter deciding_state) ..<
             Suc (task_counter deciding_state) + length two_decisions] = [1, 2]"
    by (simp add: deciding_state_calls two_decisions_def upt_rec)
  have b: "Suc (batch_counter deciding_state) = 1"
    by (simp add: deciding_state_calls)
  note t = executor_fans_out_and_joins [OF fan_out_state_def b [symmetric] ns [symmetric] refl,
             of fan_out_events]
  note t1 = t [THEN conjunct1]
  note t2 = t [THEN conjunct2, THEN conjunct1]
  note t5 = t [THEN conjunct2, THEN conjunct2, THEN conjunct2, THEN conjunct2, THEN conjunct1]
  note t7 = t [THEN conjunct2, THEN conjunct2, THEN conjunct2, THEN conjunct2, THEN conjunct2,
               THEN conjunct2]
  have nj: "Join 1 \<notin> set fan_out_events"
    by (simp add: fan_out_events_def)
  have st: "map (map_of (tasks fan_out_state)) [1, 2]
       = [Some (started_task failing_fetch_env ''g'' \<lparr>decision_id = ''A'', decision_target = None\<rparr>
                  deciding_state),
          Some (started_task failing_fetch_env ''g'' \<lparr>decision_id = ''B'', decision_target = Some ''A''\<rparr>
                  deciding_state)]"
    using t2 by (simp add: two_decisions_def)
  have c: "count_list fan_out_events (TaskStep (Suc 0)) = 4"
    "count_list fan_out_events (TaskStep 2) = 4"
    by (simp_all add: fan_out_events_def)
  have r: "pending_or_fulfilled (map_of (tasks ?s2) 1) \<and> status_rank (map_of (tasks ?s2) 1) = 0"
    "pending_or_fulfilled (map_of (tasks ?s2) 2) \<and> status_rank (map_of (tasks ?s2) 2) = 0"
    using t5 by (simp_all add: c)
  have f: "fulfilled_all [1, 2] ?s2"
    using r rank_zero_fulfilled [of "map_of (tasks ?s2) 1"]
      rank_zero_fulfilled [of "map_of (tasks ?s2) 2"]
    by (simp add: fulfilled_all_def)
  note j = t7 [rule_format, OF nj]
  have h: "timer_counter (step failing_fetch_env ?s2 (Join 1)) = timer_counter ?s2 + 1"
    using j [THEN conjunct2, THEN conjunct1] f by (simp add: two_decisions_def)
  note once = j [THEN conjunct2, THEN conjunct2, rule_format, OF f, of "[Trigger ''g'', Join 1]"]
  from t1 st nj f h once show ?thesis
    by (simp only: fan_out_started) simp
qed

section \<open>Agent tasks\<close>

lemma process_resolves: "fst (internal_processAgentMessage en g a t s) = Resolved"
  by (simp add: internal_processAgentMessage_def Let_def split_def)

section \<open>The paths of an agent task\<close>




lemma same_sched_update [simp]:
  "same_sched s (t\<lparr>messagesMap := m, trace := tr\<rparr>) = same_sched s t"
  by (simp add: same_sched_def)









section \<open>The failure handler of an agent task\<close>

lemma failing_task_trace:
  "map event_tag
     (trace (snd (internal_processAgentMessage failing_fetch_env ''g'' ''A'' None
                    (sample_state [sample_message User ''hello'']))))
     = [''console.log'', ''internal_createMessage'', ''internal_fetchAIChatMessage'',
        ''console.error'', ''internal_toggleChatLoading'']"
  by code_simp

lemma failing_task_messages:
  "map msg_content
     (lookup_messages
        (messagesMap (snd (internal_processAgentMessage failing_fetch_env ''g'' ''A'' None
                             (sample_state [sample_message User ''hello'']))))
        (messageMapKey failing_fetch_env ''g'' None))
     = [''hello'', LOADING_FLAT failing_fetch_env]"
  by code_simp

lemma foreign_placeholder_dispatch:
  "dispatched_ids
     (trace (snd (internal_processAgentMessage bare_key_env ''g'' ''A'' None bare_key_state)))
     = [''msg-B'']"
  by code_simp

lemma foreign_placeholder_messages:
  "map msg_id
     (lookup_messages
        (messagesMap (snd (internal_processAgentMessage bare_key_env ''g'' ''A'' None bare_key_state)))
        ''g'')
     = [''m0'', ''msg-B'', ''msg-A'']"
  by code_simp

text \<open>
  C6 does not hold of the code. The failure handler looks for the placeholder in
  \<open>messagesMap[groupId]\<close>, while messages are stored under
  \<open>messageMapKey(groupId, activeTopicId)\<close>, and it does not test the agent id. With the
  key joining group and topic, a task whose completion request fails finds no message
  and rewrites nothing: its placeholder keeps the loading sentinel. With messages stored
  under the bare group id, the failing task of agent \<open>A\<close> rewrites the first pending
  placeholder of the group, which belongs to agent \<open>B\<close>. In both cases the exception is
  caught and logged and the task fulfils.
\<close>

theorem failure_handler_misses_placeholder:
  "fst (internal_processAgentMessage failing_fetch_env ''g'' ''A'' None
          (sample_state [sample_message User ''hello''])) = Resolved
   \<and> map event_tag
       (trace (snd (internal_processAgentMessage failing_fetch_env ''g'' ''A'' None
                      (sample_state [sample_message User ''hello'']))))
       = [''console.log'', ''internal_createMessage'', ''internal_fetchAIChatMessage'',
          ''console.error'', ''internal_toggleChatLoading'']
   \<and> map msg_content
       (lookup_messages
          (messagesMap (snd (internal_processAgentMessage failing_fetch_env ''g'' ''A'' None
                               (sample_state [sample_message User ''hello'']))))
          (messageMapKey failing_fetch_env ''g'' None))
       = [''hello'', LOADING_FLAT failing_fetch_env]
   \<and> dispatched_ids
       (trace (snd (internal_processAgentMessage bare_key_env ''g'' ''A'' None bare_key_state)))
       = [''msg-B'']
   \<and> map msg_id
       (lookup_messages
          (messagesMap (snd (internal_processAgentMessage bare_key_env ''g'' ''A'' None
                               bare_key_state)))
          ''g'')
       = [''m0'', ''msg-B'', ''msg-A'']"
  using failing_task_trace failing_task_messages foreign_placeholder_dispatch
        foreign_placeholder_messages
        process_resolves [of failing_fetch_env "''g''" "''A''" None
                             "sample_state [sample_message User ''hello'']"]
  by blast

end
